theory Spec2Isabelle
  imports Complex_Main
begin

section \<open>JavaScript values\<close>

text \<open>
  Tool arguments, tool results and response payloads are JSON values. A JavaScript
  string is a \<^typ>\<open>string\<close>; the symbols of the fixed templates that lie outside ASCII
  are spelled as their UTF-8 bytes and are never measured or cut. Numbers are the
  integral ones. An object is the list of its own properties in the order
  \<^verbatim>\<open>Object.keys\<close> enumerates them, with distinct keys.
\<close>

datatype json =
    JUndefined
  | JNull
  | JBool bool
  | JNum int
  | JStr string
  | JArr "json list"
  | JObj "(string \<times> json) list"

text \<open>
  A thrown value, seen through the only property the code reads of it,
  \<^verbatim>\<open>error.message\<close> (\<^const>\<open>JUndefined\<close> when the thrown value has none).
\<close>

datatype js_error = Thrown (errorMessage: json)

text \<open>The engine's TypeErrors; the message texts follow V8.\<close>

definition notAFunction :: "string \<Rightarrow> js_error" where
  "notAFunction what = Thrown (JStr (what @ '' is not a function''))"

definition cannotRead :: "json \<Rightarrow> string \<Rightarrow> js_error" where
  "cannotRead base key =
     Thrown (JStr (''Cannot read properties of ''
       @ (if base = JNull then ''null'' else ''undefined'')
       @ '' (reading '' @ [CHR 0x27] @ key @ [CHR 0x27] @ '')''))"

fun truthy :: "json \<Rightarrow> bool" where
  "truthy JUndefined = False"
| "truthy JNull = False"
| "truthy (JBool b) = b"
| "truthy (JNum n) = (n \<noteq> 0)"
| "truthy (JStr s) = (s \<noteq> [])"
| "truthy (JArr xs) = True"
| "truthy (JObj kvs) = True"

fun nullish :: "json \<Rightarrow> bool" where
  "nullish JUndefined = True"
| "nullish JNull = True"
| "nullish v = False"

text \<open>\<^verbatim>\<open>typeof v === 'object'\<close>: objects, arrays and \<^verbatim>\<open>null\<close>.\<close>

fun typeofObject :: "json \<Rightarrow> bool" where
  "typeofObject JNull = True"
| "typeofObject (JArr xs) = True"
| "typeofObject (JObj kvs) = True"
| "typeofObject v = False"

text \<open>\<^verbatim>\<open>a || b\<close>, for a right operand that cannot throw.\<close>

definition js_or :: "json \<Rightarrow> json \<Rightarrow> json" where
  "js_or a b = (if truthy a then a else b)"

fun digit :: "nat \<Rightarrow> char" where
  "digit d =
     (if d = 0 then CHR ''0'' else if d = 1 then CHR ''1'' else if d = 2 then CHR ''2''
      else if d = 3 then CHR ''3'' else if d = 4 then CHR ''4'' else if d = 5 then CHR ''5''
      else if d = 6 then CHR ''6'' else if d = 7 then CHR ''7'' else if d = 8 then CHR ''8''
      else CHR ''9'')"

fun show_nat :: "nat \<Rightarrow> string" where
  "show_nat n = (if n < 10 then [digit n] else show_nat (n div 10) @ [digit (n mod 10)])"

declare show_nat.simps [simp del]

definition show_int :: "int \<Rightarrow> string" where
  "show_int i = (if i < 0 then CHR ''-'' # show_nat (nat (- i)) else show_nat (nat i))"

fun join_comma :: "string list \<Rightarrow> string" where
  "join_comma [] = []"
| "join_comma [s] = s"
| "join_comma (s # t # ss) = s @ '','' @ join_comma (t # ss)"

text \<open>
  The string a template literal \<^verbatim>\<open>`${v}`\<close> inserts for \<open>v\<close>: an array is its elements
  joined by commas, \<^verbatim>\<open>null\<close> and \<^verbatim>\<open>undefined\<close> elements being empty.
\<close>

fun toString :: "json \<Rightarrow> string" where
  "toString JUndefined = ''undefined''"
| "toString JNull = ''null''"
| "toString (JBool b) = (if b then ''true'' else ''false'')"
| "toString (JNum n) = show_int n"
| "toString (JStr s) = s"
| "toString (JArr xs) = join_comma (map (\<lambda>x. if nullish x then [] else toString x) xs)"
| "toString (JObj kvs) = ''[object Object]''"

text \<open>\<^verbatim>\<open>Object.keys\<close> and the own properties of an object or an array.\<close>

fun ownEntries :: "json \<Rightarrow> (string \<times> json) list" where
  "ownEntries (JObj kvs) = kvs"
| "ownEntries (JArr xs) = zip (map show_nat [0..<length xs]) xs"
| "ownEntries v = []"

definition ownKeys :: "json \<Rightarrow> string list" where
  "ownKeys v = map fst (ownEntries v)"

text \<open>
  \<^verbatim>\<open>base.key\<close> and \<^verbatim>\<open>base[key]\<close> for a base that is neither \<^verbatim>\<open>null\<close> nor
  \<^verbatim>\<open>undefined\<close>, and a key that names data (no method of a prototype).
\<close>

fun getProp :: "json \<Rightarrow> string \<Rightarrow> json" where
  "getProp (JObj kvs) key = (case map_of kvs key of Some v \<Rightarrow> v | None \<Rightarrow> JUndefined)"
| "getProp (JArr xs) key =
     (if key = ''length'' then JNum (int (length xs))
      else case map_of (ownEntries (JArr xs)) key of Some v \<Rightarrow> v | None \<Rightarrow> JUndefined)"
| "getProp (JStr s) key = (if key = ''length'' then JNum (int (length s)) else JUndefined)"
| "getProp v key = JUndefined"

text \<open>\<^verbatim>\<open>base?.key\<close>\<close>

definition optProp :: "json \<Rightarrow> string \<Rightarrow> json" where
  "optProp base key = (if nullish base then JUndefined else getProp base key)"

text \<open>\<^verbatim>\<open>base.key\<close>, which throws on \<^verbatim>\<open>null\<close> and \<^verbatim>\<open>undefined\<close>.\<close>

definition member :: "json \<Rightarrow> string \<Rightarrow> js_error + json" where
  "member base key = (if nullish base then Inl (cannotRead base key) else Inr (getProp base key))"

text \<open>
  \<^verbatim>\<open>v?.substring(0, n)\<close>: skipped on \<^verbatim>\<open>null\<close> and \<^verbatim>\<open>undefined\<close>, a prefix of a string,
  and a TypeError on every other value, which has no such method.
\<close>

fun optSubstring :: "string \<Rightarrow> json \<Rightarrow> nat \<Rightarrow> js_error + json" where
  "optSubstring what JUndefined n = Inr JUndefined"
| "optSubstring what JNull n = Inr JUndefined"
| "optSubstring what (JStr s) n = Inr (JStr (take n s))"
| "optSubstring what v n = Inl (notAFunction (what @ ''?.substring''))"

section \<open>The template formatter\<close>

definition warningSign :: string where
  "warningSign = [CHR 0xE2, CHR 0x9A, CHR 0xA0, CHR 0xEF, CHR 0xB8, CHR 0x8F]"

definition crossMark :: string where
  "crossMark = [CHR 0xE2, CHR 0x9D, CHR 0x8C]"

definition checkMark :: string where
  "checkMark = [CHR 0xE2, CHR 0x9C, CHR 0x85]"

definition barChart :: string where
  "barChart = [CHR 0xF0, CHR 0x9F, CHR 0x93, CHR 0x8A]"

definition dartTarget :: string where
  "dartTarget = [CHR 0xF0, CHR 0x9F, CHR 0x8E, CHR 0xAF]"

definition bullet :: string where
  "bullet = [CHR 0xE2, CHR 0x80, CHR 0xA2]"

definition microscope :: string where
  "microscope = [CHR 0xF0, CHR 0x9F, CHR 0x94, CHR 0xAC]"

definition linkSign :: string where
  "linkSign = [CHR 0xF0, CHR 0x9F, CHR 0x94, CHR 0x97]"

definition package :: string where
  "package = [CHR 0xF0, CHR 0x9F, CHR 0x93, CHR 0xA6]"

definition wavingHand :: string where
  "wavingHand = [CHR 0xF0, CHR 0x9F, CHR 0x91, CHR 0x8B]"

text \<open>
  One line of the failed-batches listing, the body of the \<^verbatim>\<open>forEach\<close> callback.
  \<open>dateString v\<close> stands for \<^verbatim>\<open>new Date(v).toLocaleString()\<close>, which depends on the
  host's locale and time zone.
\<close>

definition batchLine :: "(json \<Rightarrow> string) \<Rightarrow> nat \<Rightarrow> json \<Rightarrow> js_error + string" where
  \<open>batchLine dateString i b =
     (case member b ''id'' of
        Inl e \<Rightarrow> Inl e
      | Inr bid \<Rightarrow>
         (case optSubstring ''b.id'' bid 12 of
            Inl e \<Rightarrow> Inl e
          | Inr short \<Rightarrow>
              Inr (show_nat (i + 1) @ ''. Batch `'' @ toString short @ ''...` - Failed at ''
                   @ dateString (getProp b ''created'') @ ''\<newline>'')))\<close>

fun forEachBatch ::
  "(json \<Rightarrow> string) \<Rightarrow> nat \<Rightarrow> json list \<Rightarrow> string \<Rightarrow> js_error + string" where
  "forEachBatch dateString i [] msg = Inr msg"
| "forEachBatch dateString i (b # bs) msg =
     (case batchLine dateString i b of
        Inl e \<Rightarrow> Inl e
      | Inr line \<Rightarrow> forEachBatch dateString (Suc i) bs (msg @ line))"

definition formatFailedBatches :: "(json \<Rightarrow> string) \<Rightarrow> json \<Rightarrow> js_error + string" where
  \<open>formatFailedBatches dateString data =
     (let batches = js_or (optProp data ''batches'') (JArr []) in
      if getProp batches ''length'' = JNum 0 then
        Inr (checkMark
             @ '' **Great news!** No failed batches found. Your ingestion is running smoothly!\<newline>'')
      else
        (let msg = barChart @ '' I found **'' @ toString (getProp batches ''length'')
                   @ '' failed batches** that need attention:\<newline>\<newline>'' in
         case batches of
           JArr xs \<Rightarrow>
             (case forEachBatch dateString 0 (take 5 xs) msg of
                Inl e \<Rightarrow> Inl e
              | Inr msg' \<Rightarrow>
                  Inr (if length xs > 5
                       then msg' @ ''\<newline>...and '' @ show_nat (length xs - 5)
                            @ '' more. Would you like me to analyze any specific batch?\<newline>''
                       else msg'))
         | JStr s \<Rightarrow> Inl (notAFunction ''batches.slice(...).forEach'')
         | _ \<Rightarrow> Inl (notAFunction ''batches.slice'')))\<close>

definition formatSegmentStats :: "json \<Rightarrow> string" where
  \<open>formatSegmentStats data =
     (let total = js_or (js_or (optProp data ''total'') (optProp data ''totalSegments'')) (JNum 0);
          published = js_or (js_or (optProp (optProp data ''byState'') ''published'')
                                   (optProp data ''published'')) (JNum 0);
          draft = js_or (js_or (optProp (optProp data ''byState'') ''draft'')
                               (optProp data ''draft'')) (JNum 0)
      in dartTarget @ '' **Segment Overview:**\<newline>''
         @ bullet @ '' **'' @ toString total @ ''** total segments in this sandbox\<newline>''
         @ bullet @ '' **'' @ toString published @ ''** are published and active\<newline>''
         @ bullet @ '' **'' @ toString draft @ ''** are in draft status\<newline>\<newline>''
         @ ''Would you like me to show specific segments or help create a new one?\<newline>'')\<close>

definition formatBatchErrors :: "json \<Rightarrow> js_error + string" where
  \<open>formatBatchErrors data =
     (let totalErrors = js_or (optProp data ''totalErrors'') (JNum 0);
          topError = optProp data ''topError''
      in if totalErrors = JNum 0 then Inr (checkMark @ '' No errors found in this batch.\<newline>'')
         else
           (case optSubstring ''data?.batchId'' (optProp data ''batchId'') 12 of
              Inl e \<Rightarrow> Inl e
            | Inr short \<Rightarrow>
               (let errMsg = microscope @ '' **Error Analysis for batch '' @ toString short
                             @ ''...**\<newline>\<newline>''
                             @ ''Found **'' @ toString totalErrors
                             @ '' errors** total.\<newline>\<newline>''
                in Inr (if truthy topError
                        then errMsg @ ''**Most common issue:** `''
                             @ toString (getProp topError ''errorCode'')
                             @ ''` ('' @ toString (getProp topError ''percentage'')
                             @ ''% of errors)\<newline>''
                             @ ''This typically means: ''
                             @ toString (js_or (optProp data ''recommendation'')
                                               (JStr ''Check the source data format.''))
                             @ ''\<newline>''
                        else errMsg))))\<close>

definition formatIdentityGraph :: "json \<Rightarrow> js_error + string" where
  \<open>formatIdentityGraph data =
     (let members = js_or (optProp data ''members'') (JArr []) in
      case optSubstring ''data?.inputIdentity?.identity''
             (optProp (optProp data ''inputIdentity'') ''identity'') 15 of
        Inl e \<Rightarrow> Inl e
      | Inr short \<Rightarrow>
         (let graphMsg = linkSign @ '' **Identity Graph for ''
                         @ toString (optProp (optProp data ''inputIdentity'') ''namespace'')
                         @ '':'' @ toString short @ ''...**\<newline>\<newline>''
                         @ ''This identity is linked to **''
                         @ toString (getProp members ''length'')
                         @ '' other identities**:\<newline>''
          in Inr (if truthy (optProp data ''isSharedDevice'')
                  then graphMsg @ ''\<newline>'' @ warningSign
                       @ '' **Warning:** Large cluster detected - this might be a shared device!\<newline>''
                  else graphMsg)))\<close>

text \<open>The default case: the loop over \<^verbatim>\<open>keys.slice(0, 5)\<close>.\<close>

definition summaryLine :: "json \<Rightarrow> string \<Rightarrow> string" where
  \<open>summaryLine data key =
     (let val = getProp data key in
      if \<not> typeofObject val then bullet @ '' '' @ key @ '': '' @ toString val @ ''\<newline>''
      else [])\<close>

definition formatDefault :: "string \<Rightarrow> json \<Rightarrow> string" where
  \<open>formatDefault toolName data =
     (if typeofObject data \<and> data \<noteq> JNull \<and> length (ownKeys data) \<le> 5 then
        foldl (\<lambda>summary key. summary @ summaryLine data key)
              (package @ '' **'' @ toolName @ '' completed:**\<newline>'')
              (take 5 (ownKeys data))
      else checkMark @ '' **'' @ toolName @ ''** completed successfully.\<newline>'')\<close>

definition formatToolResult :: "(json \<Rightarrow> string) \<Rightarrow> string \<Rightarrow> json \<Rightarrow> js_error + string" where
  "formatToolResult dateString toolName data =
     (if toolName = ''get_failed_batches'' then formatFailedBatches dateString data
      else if toolName = ''get_segment_stats'' then Inr (formatSegmentStats data)
      else if toolName = ''analyze_batch_errors'' then formatBatchErrors data
      else if toolName = ''get_identity_graph'' then formatIdentityGraph data
      else Inr (formatDefault toolName data))"

section \<open>Data model, collaborators and state\<close>

record chat_message =
  role :: string
  content :: string
  timestamp :: json

record tool_call =
  name :: string
  arguments :: json

text \<open>
  An entry of the results list. \<open>error\<close> holds \<^verbatim>\<open>error.message\<close> of a failed call and
  is \<^const>\<open>JUndefined\<close> on an entry of a successful one; \<open>data\<close> and \<open>args\<close> are
  \<^const>\<open>JUndefined\<close> where the entry has no such property.
\<close>

record tool_result =
  tool :: string
  data :: json
  error :: json
  args :: json

text \<open>
  A pending action, as the orchestrator returns it and as the caller sends it back in
  \<^verbatim>\<open>approvedAction\<close>.
\<close>

record action =
  toolName :: string
  toolArguments :: json
  actionDescription :: string

text \<open>
  The responses of a turn: \<^verbatim>\<open>{content, data?, toolsUsed}\<close>, where the second argument
  is \<^const>\<open>None\<close> when the object has no \<^verbatim>\<open>data\<close> property, and
  \<^verbatim>\<open>{requiresApproval: true, toolName, toolArguments, actionDescription}\<close>.
\<close>

datatype response =
    Reply (replyContent: string) (replyData: "json option") (replyToolsUsed: "string list")
  | PendingApproval action

record turn_input =
  message :: string
  autoMode :: bool
  history :: "chat_message list"
  approvedAction :: "action option"

record llm_options =
  temperature :: real
  maxTokens :: nat

text \<open>
  The modules the orchestrator imports, \<^verbatim>\<open>./tools/index.js\<close> and \<^verbatim>\<open>./llm.service.js\<close>,
  and the builtins it calls, as parameters. \<open>'w\<close> is the state of everything outside
  the module (the remote platform, the model); a call that awaits a collaborator
  takes it and returns it, with \<^const>\<open>Inl\<close> for a rejection. \<open>'r\<close> is the model's
  response object and \<open>'d\<close> the tool definitions handed to the model.
  \<open>jsonStringify v\<close> is \<^verbatim>\<open>JSON.stringify(v, null, 2)\<close>, \<^const>\<open>None\<close> where that is
  \<^verbatim>\<open>undefined\<close>; \<open>toLocaleString v\<close> is \<^verbatim>\<open>new Date(v).toLocaleString()\<close>.
\<close>

record ('w, 'r, 'd) env =
  requiresApproval :: "string \<Rightarrow> bool"
  executeTool :: "string \<Rightarrow> json \<Rightarrow> 'w \<Rightarrow> (js_error + json) \<times> 'w"
  getToolDefinitions :: "'d"
  isConfigured :: "'w \<Rightarrow> bool"
  chatCompletion ::
    "(string \<times> string) list \<Rightarrow> 'd option \<Rightarrow> llm_options \<Rightarrow> 'w \<Rightarrow> (js_error + 'r) \<times> 'w"
  parseToolCalls :: "'r \<Rightarrow> js_error + tool_call list option"
  getContent :: "'r \<Rightarrow> js_error + string"
  jsonStringify :: "json \<Rightarrow> string option"
  toLocaleString :: "json \<Rightarrow> string"

text \<open>
  The state a turn runs in: the module variable \<^verbatim>\<open>chatHistory\<close>, the outside world,
  and the log of the calls made to \<^verbatim>\<open>toolRegistry.executeTool\<close>, oldest first.
\<close>

record 'w state =
  chatHistory :: "chat_message list"
  world :: "'w"
  executed :: "(string \<times> json) list"

definition initialState :: "'w \<Rightarrow> 'w state" where
  "initialState w = \<lparr>chatHistory = [], world = w, executed = []\<rparr>"

text \<open>\<^verbatim>\<open>await toolRegistry.executeTool(name, args)\<close>\<close>

definition runTool ::
  "('w, 'r, 'd) env \<Rightarrow> string \<Rightarrow> json \<Rightarrow> 'w state \<Rightarrow> (js_error + json) \<times> 'w state" where
  "runTool env nm ar s =
     (case executeTool env nm ar (world s) of
        (outcome, w') \<Rightarrow> (outcome, s\<lparr>world := w', executed := executed s @ [(nm, ar)]\<rparr>))"

definition SYSTEM_PROMPT :: string where
  \<open>SYSTEM_PROMPT =
       ''You are an expert AI assistant for Adobe Experience Platform (AEP). You help users explore, analyze, AND create/manage their AEP resources.\<newline>''
     @ ''\<newline>''
     @ ''CAPABILITIES:\<newline>''
     @ ''- Query and analyze batch ingestion status and errors\<newline>''
     @ ''- Search, explore, and explain schemas\<newline>''
     @ ''- Look up profiles by identity\<newline>''
     @ ''- Execute SQL queries against AEP Data Lake\<newline>''
     @ ''- View, debug, and CREATE segments/audiences\<newline>''
     @ ''- Analyze identity graphs and detect issues\<newline>''
     @ ''- Diagnose ingestion failures with root cause analysis\<newline>''
     @ ''- Generate PQL expressions from natural language\<newline>''
     @ ''- Generate SQL queries from natural language\<newline>''
     @ ''\<newline>''
     @ ''AUTONOMOUS BEHAVIOR:\<newline>''
     @ ''1. When asked to create something (segment, query, etc.), gather all needed info first\<newline>''
     @ ''2. Search for relevant schemas, namespaces, and reference data\<newline>''
     @ ''3. Build the proper payload/syntax\<newline>''
     @ ''4. Explain what you're creating before doing it\<newline>''
     @ ''5. If something fails, diagnose and suggest fixes\<newline>''
     @ ''\<newline>''
     @ ''RESPONSE STYLE:\<newline>''
     @ ''- NEVER show raw JSON to users - always summarize and explain\<newline>''
     @ ''- Use natural language to explain data and results\<newline>''
     @ ''- Highlight key insights, anomalies, or concerns\<newline>''
     @ ''- Suggest next steps or related actions\<newline>''
     @ ''- Use emojis sparingly for visual cues\<newline>''
     @ ''- Format with markdown: bullets, bold, code blocks when helpful\<newline>''
     @ ''\<newline>''
     @ ''GUIDELINES:\<newline>''
     @ ''1. Be conversational and helpful\<newline>''
     @ ''2. Summarize data in plain English with key metrics\<newline>''
     @ ''3. When showing counts/stats, explain what they mean\<newline>''
     @ ''4. If there are issues, explain the likely cause\<newline>''
     @ ''5. Offer to dig deeper or take related actions\<newline>''
     @ ''6. If creating something, explain the structure you'll use\<newline>''
     @ ''\<newline>''
     @ ''RESTRICTIONS:\<newline>''
     @ ''- You CANNOT delete any resources\<newline>''
     @ ''- Write operations require user approval (unless auto-mode)\<newline>''
     @ ''\<newline>''
     @ ''Remember: You are an expert. Explain things like a helpful colleague, not a machine.''\<close>

section \<open>The result summarizer\<close>

fun formatLoop ::
  "(json \<Rightarrow> string) \<Rightarrow> tool_result list \<Rightarrow> string \<Rightarrow> json \<Rightarrow> js_error + string \<times> json" where
  "formatLoop dateString [] contentAcc dataAcc = Inr (contentAcc, dataAcc)"
| \<open>formatLoop dateString (result # rest) contentAcc dataAcc =
     (if truthy (error result) then
        formatLoop dateString rest
          (contentAcc @ warningSign @ '' '' @ tool result @ '' failed: ''
           @ toString (error result) @ ''\<newline>\<newline>'') dataAcc
      else
        (case formatToolResult dateString (tool result) (data result) of
           Inl e \<Rightarrow> Inl e
         | Inr text \<Rightarrow> formatLoop dateString rest (contentAcc @ text) (data result)))\<close>

definition formatResultsBasic ::
  "(json \<Rightarrow> string) \<Rightarrow> tool_result list \<Rightarrow> string list \<Rightarrow> js_error + response" where
  "formatResultsBasic dateString results toolsUsed =
     (case formatLoop dateString results [] JNull of
        Inl e \<Rightarrow> Inl e
      | Inr (contentAcc, dataAcc) \<Rightarrow> Inr (Reply contentAcc (Some dataAcc) toolsUsed))"

text \<open>The loop that builds \<^verbatim>\<open>resultContext\<close>.\<close>

fun buildContext ::
  "(json \<Rightarrow> string option) \<Rightarrow> tool_result list \<Rightarrow> string \<Rightarrow> js_error + string" where
  "buildContext stringify [] resultContext = Inr resultContext"
| \<open>buildContext stringify (result # rest) resultContext =
     (if truthy (error result) then
        buildContext stringify rest
          (resultContext @ ''\<newline>Tool '' @ tool result @ '' failed: ''
           @ toString (error result) @ ''\<newline>'')
      else
        (case stringify (data result) of
           None \<Rightarrow> Inl (cannotRead JUndefined ''length'')
         | Some dataStr \<Rightarrow>
             (let truncated = (if length dataStr > 3000 then take 3000 dataStr @ ''...''
                               else dataStr)
              in buildContext stringify rest
                   (resultContext @ ''\<newline>=== '' @ tool result @ '' Result ===\<newline>''
                    @ truncated @ ''\<newline>''))))\<close>

definition summaryMessages :: "string \<Rightarrow> string \<Rightarrow> (string \<times> string) list" where
  \<open>summaryMessages originalMessage resultContext =
     [(''system'',
       ''You are an expert at explaining Adobe Experience Platform data. Summarize tool results in clear, natural language. Never show raw JSON. Focus on key insights and actionable information. Be conversational but concise. Use markdown formatting.''),
      (''user'',
       ''The user asked: "'' @ originalMessage @ ''"\<newline>''
       @ ''\<newline>''
       @ ''The following tools were called and returned data:\<newline>''
       @ ''\<newline>''
       @ resultContext @ ''\<newline>''
       @ ''\<newline>''
       @ ''Provide a helpful, natural language response that answers the user's question. Highlight key metrics, any issues found, and suggest next steps if relevant. Do NOT show raw JSON - explain the data in plain English.'')]\<close>

text \<open>\<^verbatim>\<open>results.length === 1 ? results[0].data : results.map(r => r.data)\<close>\<close>

definition summaryData :: "tool_result list \<Rightarrow> json" where
  "summaryData results =
     (case results of
        [result] \<Rightarrow> data result
      | _ \<Rightarrow> JArr (map data results))"

text \<open>The \<^verbatim>\<open>try\<close> block of \<^verbatim>\<open>summarizeResultsWithLLM\<close>.\<close>

definition trySummarize ::
  "('w, 'r, 'd) env \<Rightarrow> tool_result list \<Rightarrow> string list \<Rightarrow> string \<Rightarrow> 'w state
     \<Rightarrow> (js_error + response) \<times> 'w state" where
  "trySummarize env results toolsUsed originalMessage s =
     (case buildContext (jsonStringify env) results [] of
        Inl e \<Rightarrow> (Inl e, s)
      | Inr resultContext \<Rightarrow>
         (case chatCompletion env (summaryMessages originalMessage resultContext) None
                 \<lparr>temperature = 5 / 10, maxTokens = 1024\<rparr> (world s) of
            (Inl e, w') \<Rightarrow> (Inl e, s\<lparr>world := w'\<rparr>)
          | (Inr summaryResponse, w') \<Rightarrow>
             (case getContent env summaryResponse of
                Inl e \<Rightarrow> (Inl e, s\<lparr>world := w'\<rparr>)
              | Inr summary \<Rightarrow>
                 (if summary \<noteq> [] then
                    (Inr (Reply summary (Some (summaryData results)) toolsUsed), s\<lparr>world := w'\<rparr>)
                  else
                    (case formatResultsBasic (toLocaleString env) results toolsUsed of
                       Inl e \<Rightarrow> (Inl e, s\<lparr>world := w'\<rparr>)
                     | Inr basic \<Rightarrow>
                         (Inr (Reply (replyContent basic) (Some (summaryData results)) toolsUsed),
                          s\<lparr>world := w'\<rparr>))))))"

definition summarizeResultsWithLLM ::
  "('w, 'r, 'd) env \<Rightarrow> tool_result list \<Rightarrow> string list \<Rightarrow> string \<Rightarrow> 'w state
     \<Rightarrow> (js_error + response) \<times> 'w state" where
  "summarizeResultsWithLLM env results toolsUsed originalMessage s =
     (if \<not> isConfigured env (world s) then
        (formatResultsBasic (toLocaleString env) results toolsUsed, s)
      else
        (case trySummarize env results toolsUsed originalMessage s of
           (Inl e, s') \<Rightarrow> (formatResultsBasic (toLocaleString env) results toolsUsed, s')
         | (Inr r, s') \<Rightarrow> (Inr r, s')))"

section \<open>The tool-call scan and the approved action\<close>

definition getActionDescription :: "string \<Rightarrow> json \<Rightarrow> js_error + string" where
  \<open>getActionDescription nm ar =
     (if nm = ''execute_sql_query'' then
        (case member ar ''sql'' of
           Inl e \<Rightarrow> Inl e
         | Inr sql \<Rightarrow>
            (case optSubstring ''args.sql'' sql 100 of
               Inl e \<Rightarrow> Inl e
             | Inr short \<Rightarrow>
                 Inr (''Execute SQL query:\<newline>```sql\<newline>'' @ toString short
                      @ ''...\<newline>```'')))
      else if nm = ''generate_pql_from_description'' then
        (case member ar ''description'' of
           Inl e \<Rightarrow> Inl e
         | Inr description \<Rightarrow>
             Inr (''Generate PQL segment expression for: "'' @ toString description @ ''"''))
      else if nm = ''generate_sql_from_intent'' then
        (case member ar ''intent'' of
           Inl e \<Rightarrow> Inl e
         | Inr intent \<Rightarrow> Inr (''Generate SQL query for: "'' @ toString intent @ ''"''))
      else Inr (''Execute '' @ nm))\<close>

text \<open>
  The \<^verbatim>\<open>for\<close> loop of \<^verbatim>\<open>handleToolCalls\<close>, from the calls still to scan and the
  \<^verbatim>\<open>results\<close> and \<^verbatim>\<open>toolsUsed\<close> gathered so far; its third result is
  \<^verbatim>\<open>pendingTool\<close>, set where the loop breaks.
\<close>

fun scanTools ::
  "('w, 'r, 'd) env \<Rightarrow> bool \<Rightarrow> tool_call list \<Rightarrow> tool_result list \<Rightarrow> string list \<Rightarrow> 'w state
     \<Rightarrow> (tool_result list \<times> string list \<times> tool_call option) \<times> 'w state" where
  "scanTools env auto [] results toolsUsed s = ((results, toolsUsed, None), s)"
| "scanTools env auto (call # rest) results toolsUsed s =
     (if requiresApproval env (name call) \<and> \<not> auto then
        ((results, toolsUsed @ [name call], Some call), s)
      else
        (case runTool env (name call) (arguments call) s of
           (Inr result, s') \<Rightarrow>
             scanTools env auto rest
               (results @ [\<lparr>tool = name call, data = result, error = JUndefined,
                             args = arguments call\<rparr>])
               (toolsUsed @ [name call]) s'
         | (Inl e, s') \<Rightarrow>
             scanTools env auto rest
               (results @ [\<lparr>tool = name call, data = JUndefined, error = errorMessage e,
                             args = JUndefined\<rparr>])
               (toolsUsed @ [name call]) s'))"

definition handleToolCalls ::
  "('w, 'r, 'd) env \<Rightarrow> tool_call list \<Rightarrow> bool \<Rightarrow> string \<Rightarrow> 'w state
     \<Rightarrow> (js_error + response) \<times> 'w state" where
  "handleToolCalls env toolCalls auto originalMessage s =
     (case scanTools env auto toolCalls [] [] s of
        ((results, toolsUsed, Some pendingTool), s') \<Rightarrow>
          (case getActionDescription (name pendingTool) (arguments pendingTool) of
             Inl e \<Rightarrow> (Inl e, s')
           | Inr description \<Rightarrow>
               (Inr (PendingApproval \<lparr>toolName = name pendingTool,
                                        toolArguments = arguments pendingTool,
                                        actionDescription = description\<rparr>), s'))
      | ((results, toolsUsed, None), s') \<Rightarrow>
          summarizeResultsWithLLM env results toolsUsed originalMessage s')"

definition executeApprovedAction ::
  "('w, 'r, 'd) env \<Rightarrow> action \<Rightarrow> 'w state \<Rightarrow> (js_error + response) \<times> 'w state" where
  "executeApprovedAction env act s =
     (case runTool env (toolName act) (toolArguments act) s of
        (Inr result, s') \<Rightarrow>
          summarizeResultsWithLLM env
            [\<lparr>tool = toolName act, data = result, error = JUndefined, args = JUndefined\<rparr>]
            [toolName act] (''Execute '' @ toolName act) s'
      | (Inl e, s') \<Rightarrow>
          (Inr (Reply (crossMark @ '' Error executing '' @ toolName act @ '': ''
                       @ toString (errorMessage e))
                  None [toolName act]), s'))"

section \<open>The rule-based fallback\<close>

text \<open>
  Every pattern of the fallback is \<^verbatim>\<open>/(a|...).*(b|...)/i\<close>: a pair of lists of
  alternatives, spelled in lower case. The patterns are ASCII, so ignoring case is
  comparing with the message's ASCII letters lowered.
\<close>

type_synonym regex = "string list \<times> string list"

definition lowerChar :: "char \<Rightarrow> char" where
  "lowerChar c =
     (case map_of (zip ''ABCDEFGHIJKLMNOPQRSTUVWXYZ'' ''abcdefghijklmnopqrstuvwxyz'') c of
        Some l \<Rightarrow> l
      | None \<Rightarrow> c)"

definition startsWith :: "string \<Rightarrow> string \<Rightarrow> bool" where
  "startsWith p s = (take (length p) s = p)"

text \<open>
  The characters \<^verbatim>\<open>.\<close> does not match: LF, CR, and U+2028 and U+2029 in UTF-8.
\<close>

definition lineTerminatorAt :: "string \<Rightarrow> bool" where
  "lineTerminatorAt s =
     (startsWith [CHR 0x0A] s \<or> startsWith [CHR 0x0D] s
      \<or> startsWith [CHR 0xE2, CHR 0x80, CHR 0xA8] s
      \<or> startsWith [CHR 0xE2, CHR 0x80, CHR 0xA9] s)"

fun dotStarThen :: "string list \<Rightarrow> string \<Rightarrow> bool" where
  "dotStarThen alts [] = list_ex (\<lambda>a. startsWith a []) alts"
| "dotStarThen alts (c # cs) =
     (list_ex (\<lambda>a. startsWith a (c # cs)) alts
      \<or> (\<not> lineTerminatorAt (c # cs) \<and> dotStarThen alts cs))"

definition matchAt :: "regex \<Rightarrow> string \<Rightarrow> bool" where
  "matchAt re s =
     list_ex (\<lambda>a. startsWith a s \<and> dotStarThen (snd re) (drop (length a) s)) (fst re)"

fun searchFrom :: "regex \<Rightarrow> string \<Rightarrow> bool" where
  "searchFrom re [] = matchAt re []"
| "searchFrom re (c # cs) = (matchAt re (c # cs) \<or> searchFrom re cs)"

text \<open>\<^verbatim>\<open>re.test(message)\<close>\<close>

definition regexTest :: "regex \<Rightarrow> string \<Rightarrow> bool" where
  "regexTest re s = searchFrom re (map lowerChar s)"

record pattern =
  match :: regex
  boundTool :: string
  boundArgs :: json

definition patterns :: "pattern list" where
  "patterns =
     [\<lparr>match = ([''failed'', ''error'', ''fail''], [''batch'', ''ingestion'']),
       boundTool = ''get_failed_batches'', boundArgs = JObj [(''limit'', JNum 10)]\<rparr>,
      \<lparr>match = ([''batch''], [''stat'', ''stats'', ''statistic'']),
       boundTool = ''get_batch_stats'', boundArgs = JObj [(''timeRange'', JStr ''24h'')]\<rparr>,
      \<lparr>match = ([''schema''], [''stat'', ''stats'', ''registry'']),
       boundTool = ''get_schema_stats'', boundArgs = JObj []\<rparr>,
      \<lparr>match = ([''list'', ''show'', ''get''], [''dataset'', ''data set'']),
       boundTool = ''list_datasets'', boundArgs = JObj [(''limit'', JNum 10)]\<rparr>,
      \<lparr>match = ([''segment'', ''audience''], [''stat'', ''stats'', ''count'', ''how many'']),
       boundTool = ''get_segment_stats'', boundArgs = JObj []\<rparr>,
      \<lparr>match = ([''list'', ''show'', ''get''], [''sandbox'', ''environment'']),
       boundTool = ''list_sandboxes'', boundArgs = JObj []\<rparr>,
      \<lparr>match = ([''identity''], [''graph'', ''link'']),
       boundTool = ''list_namespaces'', boundArgs = JObj []\<rparr>]"

definition helpMessage :: string where
  \<open>helpMessage =
     wavingHand @ '' I can help you with AEP! Try asking:\<newline>\<newline>''
     @ bullet @ '' "Show me failed batches"\<newline>''
     @ bullet @ '' "How many segments are there?"\<newline>''
     @ bullet @ '' "Analyze batch errors for [batch-id]"\<newline>''
     @ bullet @ '' "Create a segment for users who purchased last week"\<newline>''
     @ bullet @ '' "Generate SQL for top 10 orders by revenue"\<newline>''\<close>

definition handleWithRules ::
  "('w, 'r, 'd) env \<Rightarrow> string \<Rightarrow> 'w state \<Rightarrow> (js_error + response) \<times> 'w state" where
  "handleWithRules env msg s =
     (case find (\<lambda>p. regexTest (match p) msg) patterns of
        None \<Rightarrow> (Inr (Reply helpMessage None []), s)
      | Some p \<Rightarrow>
         (case runTool env (boundTool p) (boundArgs p) s of
            (Inl e, s') \<Rightarrow>
              (Inr (Reply (crossMark @ '' Error: '' @ toString (errorMessage e)) None
                      [boundTool p]), s')
          | (Inr result, s') \<Rightarrow>
             (case formatToolResult (toLocaleString env) (boundTool p) result of
                Inl e \<Rightarrow>
                  (Inr (Reply (crossMark @ '' Error: '' @ toString (errorMessage e)) None
                          [boundTool p]), s')
              | Inr text \<Rightarrow> (Inr (Reply text (Some result) [boundTool p]), s'))))"

section \<open>The turn\<close>

text \<open>\<^verbatim>\<open>history.slice(-n)\<close>\<close>

definition sliceLast :: "nat \<Rightarrow> 'a list \<Rightarrow> 'a list" where
  "sliceLast n xs = drop (length xs - n) xs"

definition buildMessages :: "chat_message list \<Rightarrow> string \<Rightarrow> (string \<times> string) list" where
  "buildMessages hist msg =
     [(''system'', SYSTEM_PROMPT)] @ map (\<lambda>m. (role m, content m)) hist @ [(''user'', msg)]"

text \<open>The \<^verbatim>\<open>catch\<close> clause of \<^verbatim>\<open>processMessage\<close>.\<close>

definition catchAgentError ::
  "('w, 'r, 'd) env \<Rightarrow> string \<Rightarrow> js_error \<Rightarrow> 'w state \<Rightarrow> (js_error + response) \<times> 'w state" where
  "catchAgentError env msg e s =
     (if truthy (errorMessage e) then handleWithRules env msg s else (Inl e, s))"

text \<open>
  The \<^verbatim>\<open>try\<close> block of \<^verbatim>\<open>processMessage\<close>. The promises of \<^verbatim>\<open>handleWithRules\<close> and
  \<^verbatim>\<open>handleToolCalls\<close> are returned without \<^verbatim>\<open>await\<close>, so their rejections pass
  the \<^verbatim>\<open>catch\<close> clause by.
\<close>

definition tryTurn ::
  "('w, 'r, 'd) env \<Rightarrow> (string \<times> string) list \<Rightarrow> string \<Rightarrow> bool \<Rightarrow> 'w state
     \<Rightarrow> (js_error + response) \<times> 'w state" where
  "tryTurn env messages msg auto s =
     (if \<not> isConfigured env (world s) then handleWithRules env msg s
      else
        (case chatCompletion env messages (Some (getToolDefinitions env))
                \<lparr>temperature = 7 / 10, maxTokens = 4096\<rparr> (world s) of
           (Inl e, w') \<Rightarrow> catchAgentError env msg e (s\<lparr>world := w'\<rparr>)
         | (Inr response, w') \<Rightarrow>
            (case parseToolCalls env response of
               Inl e \<Rightarrow> catchAgentError env msg e (s\<lparr>world := w'\<rparr>)
             | Inr (Some (call # calls)) \<Rightarrow>
                 handleToolCalls env (call # calls) auto msg (s\<lparr>world := w'\<rparr>)
             | Inr _ \<Rightarrow>
                (case getContent env response of
                   Inl e \<Rightarrow> catchAgentError env msg e (s\<lparr>world := w'\<rparr>)
                 | Inr text \<Rightarrow> (Inr (Reply text None []), s\<lparr>world := w'\<rparr>)))))"

definition processMessage ::
  "('w, 'r, 'd) env \<Rightarrow> turn_input \<Rightarrow> 'w state \<Rightarrow> (js_error + response) \<times> 'w state" where
  "processMessage env inp s =
     (case approvedAction inp of
        Some act \<Rightarrow> executeApprovedAction env act s
      | None \<Rightarrow>
         (let s1 = s\<lparr>chatHistory := sliceLast 20 (history inp)\<rparr>;
              messages = buildMessages (chatHistory s1) (message inp)
          in tryTurn env messages (message inp) (autoMode inp) s1))"

definition getHistory :: "'w state \<Rightarrow> chat_message list" where
  "getHistory s = chatHistory s"

definition clearHistory :: "'w state \<Rightarrow> 'w state" where
  "clearHistory s = s\<lparr>chatHistory := []\<rparr>"

section \<open>The query route and its poll loop\<close>

text \<open>
  \<^verbatim>\<open>queryService\<close> as parameters: each call takes the outside world and returns its
  outcome, the time in milliseconds it took (with any lateness of the timer awaited
  just before it), and the world after it.
\<close>

record 'w query_env =
  createQuery :: "json \<Rightarrow> 'w \<Rightarrow> ((js_error + json) \<times> nat) \<times> 'w"
  getQueryDetails :: "json \<Rightarrow> 'w \<Rightarrow> ((js_error + json) \<times> nat) \<times> 'w"

text \<open>
  The state of a request: the clock \<^verbatim>\<open>Date.now()\<close> reads, the outside world, and the
  logs of the payloads submitted, of the timers awaited, and of the ids fetched with
  what each fetch returned.
\<close>

record 'w poll_state =
  now :: nat
  remote :: "'w"
  submitted :: "json list"
  sleeps :: nat
  fetched :: "(json \<times> (js_error + json)) list"

record query_body =
  sql :: json
  queryName :: json
  description :: json

text \<open>\<^verbatim>\<open>res.status(code).json(payload)\<close>\<close>

datatype http_response = Json (status: nat) (payload: json)

definition nonTerminalStates :: "json list" where
  "nonTerminalStates = [JStr ''SUBMITTED'', JStr ''IN_PROGRESS'', JStr ''PENDING'']"

definition timeout :: nat where
  "timeout = 30000"

definition pollInterval :: nat where
  "pollInterval = 2000"

text \<open>The properties \<^verbatim>\<open>{...v}\<close> copies.\<close>

fun spread :: "json \<Rightarrow> (string \<times> json) list" where
  "spread (JStr s) = zip (map show_nat [0..<length s]) (map (\<lambda>c. JStr [c]) s)"
| "spread v = ownEntries v"

text \<open>Setting a property in an object literal: in place when the key is there, last otherwise.\<close>

fun setProp :: "(string \<times> json) list \<Rightarrow> string \<Rightarrow> json \<Rightarrow> (string \<times> json) list" where
  "setProp [] key v = [(key, v)]"
| "setProp ((k, w) # kvs) key v = (if k = key then (k, v) # kvs else (k, w) # setProp kvs key v)"

definition stillRunning :: "json \<Rightarrow> json" where
  "stillRunning result =
     JObj (setProp (setProp (spread result) ''message''
                      (JStr ''Query is still running. Check back later.''))
             ''polling'' (JBool True))"

definition sleep :: "nat \<Rightarrow> 'w poll_state \<Rightarrow> 'w poll_state" where
  "sleep ms s = s\<lparr>now := now s + ms, sleeps := Suc (sleeps s)\<rparr>"

definition fetchDetails ::
  "'w query_env \<Rightarrow> json \<Rightarrow> 'w poll_state \<Rightarrow> (js_error + json) \<times> 'w poll_state" where
  "fetchDetails env ident s =
     (case getQueryDetails env ident (remote s) of
        ((outcome, took), w') \<Rightarrow>
          (outcome, s\<lparr>now := now s + took, remote := w',
                      fetched := fetched s @ [(ident, outcome)]\<rparr>))"

definition submitQuery ::
  "'w query_env \<Rightarrow> json \<Rightarrow> 'w poll_state \<Rightarrow> (js_error + json) \<times> 'w poll_state" where
  "submitQuery env queryData s =
     (case createQuery env queryData (remote s) of
        ((outcome, took), w') \<Rightarrow>
          (outcome, s\<lparr>now := now s + took, remote := w', submitted := submitted s @ [queryData]\<rparr>))"

text \<open>The \<^verbatim>\<open>while\<close> loop, from \<^verbatim>\<open>startTime\<close> and the current \<^verbatim>\<open>result\<close>.\<close>

function pollLoop ::
  "'w query_env \<Rightarrow> nat \<Rightarrow> json \<Rightarrow> 'w poll_state \<Rightarrow> (js_error + http_response) \<times> 'w poll_state" where
  "pollLoop env startTime result s =
     (case member result ''state'' of
        Inl e \<Rightarrow> (Inl e, s)
      | Inr st \<Rightarrow>
         (if List.member nonTerminalStates st then
            (if int (now s) - int startTime > int timeout then
               (Inr (Json 200 (stillRunning result)), s)
             else
               (case fetchDetails env (getProp result ''id'') (sleep 2000 s) of
                  (Inl e, s') \<Rightarrow> (Inl e, s')
                | (Inr result', s') \<Rightarrow> pollLoop env startTime result' s'))
          else (Inr (Json 200 result), s)))"
  by pat_completeness auto
termination
proof (relation "measure (\<lambda>(env, startTime, result, s). startTime + 30001 - now s)")
  show "wf (measure (\<lambda>(env :: 'w query_env, startTime, result :: json, s :: 'w poll_state).
              startTime + 30001 - now s))"
    by simp
next
  fix env :: "'w query_env" and startTime :: nat and result :: json and s :: "'w poll_state"
    and st x y result'
  assume "\<not> int timeout < int (now s) - int startTime"
    and "(x, y) = fetchDetails env (getProp result ''id'') (sleep 2000 s)"
  then show "((env, startTime, result', y), (env, startTime, result, s))
               \<in> measure (\<lambda>(env, startTime, result, s). startTime + 30001 - now s)"
    by (auto simp: fetchDetails_def sleep_def timeout_def split: prod.splits)
qed

declare pollLoop.simps [simp del]

text \<open>The handler of \<^verbatim>\<open>POST /queries\<close>.\<close>

definition postQueries ::
  "'w query_env \<Rightarrow> query_body \<Rightarrow> 'w poll_state \<Rightarrow> (js_error + http_response) \<times> 'w poll_state" where
  "postQueries env body s =
     (if \<not> truthy (sql body) then
        (Inr (Json 400 (JObj [(''error'', JStr ''SQL query is required'')])), s)
      else
        (let queryData =
               JObj [(''dbName'', JStr ''prod:all''),
                     (''sql'', sql body),
                     (''name'', js_or (queryName body) (JStr (''Query_'' @ show_nat (now s)))),
                     (''description'',
                      js_or (description body) (JStr ''Executed from AEP Monitor''))]
         in case submitQuery env queryData s of
              (Inl e, s') \<Rightarrow> (Inl e, s')
            | (Inr createdQuery, s') \<Rightarrow> pollLoop env (now s') createdQuery s'))"

section \<open>Notions the properties are stated with\<close>

text \<open>
  The data of the last entry of a results list whose \<^verbatim>\<open>error\<close> is falsy, \<^verbatim>\<open>null\<close>
  when there is none. The entry of a call that threw an error with an empty or
  missing message is such an entry, with \<^verbatim>\<open>undefined\<close> for data.
\<close>

definition lastSuccessData :: "tool_result list \<Rightarrow> json" where
  "lastSuccessData results =
     (case filter (\<lambda>r. \<not> truthy (error r)) results of
        [] \<Rightarrow> JNull
      | r # rs \<Rightarrow> data (last (r # rs)))"

text \<open>
  The language model's client throws \<open>e\<close>, leaving the world \<open>w'\<close>, while
  \<^verbatim>\<open>processMessage\<close> obtains the model's answer to \<open>messages\<close>: in
  \<^verbatim>\<open>chatCompletion\<close>, in \<^verbatim>\<open>parseToolCalls\<close>, or, when there is no tool call, in
  \<^verbatim>\<open>getContent\<close>.
\<close>

definition llmThrows ::
  "('w, 'r, 'd) env \<Rightarrow> (string \<times> string) list \<Rightarrow> 'w \<Rightarrow> js_error \<Rightarrow> 'w \<Rightarrow> bool" where
  "llmThrows env messages w e w' =
     (case chatCompletion env messages (Some (getToolDefinitions env))
             \<lparr>temperature = 7 / 10, maxTokens = 4096\<rparr> w of
        (Inl e1, w1) \<Rightarrow> e1 = e \<and> w1 = w'
      | (Inr response, w1) \<Rightarrow>
          w1 = w' \<and>
          (case parseToolCalls env response of
             Inl e1 \<Rightarrow> e1 = e
           | Inr (Some (call # calls)) \<Rightarrow> False
           | Inr _ \<Rightarrow> getContent env response = Inl e))"

text \<open>A job whose state is one of the non-terminal ones.\<close>

definition pending :: "json \<Rightarrow> bool" where
  "pending job =
     (case member job ''state'' of
        Inl e \<Rightarrow> False
      | Inr st \<Rightarrow> List.member nonTerminalStates st)"

text \<open>
  The job most recently fetched according to a log of fetches, or the job created when
  no fetch has returned one.
\<close>

fun latestJob :: "json \<Rightarrow> (json \<times> (js_error + json)) list \<Rightarrow> json" where
  "latestJob created [] = created"
| "latestJob created ((ident, Inr job) # rest) = latestJob job rest"
| "latestJob created ((ident, Inl e) # rest) = latestJob created rest"

text \<open>The payload the route submits for a request body, at the time the clock shows.\<close>

definition queryDataOf :: "query_body \<Rightarrow> nat \<Rightarrow> json" where
  "queryDataOf body clock =
     JObj [(''dbName'', JStr ''prod:all''),
           (''sql'', sql body),
           (''name'', js_or (queryName body) (JStr (''Query_'' @ show_nat clock))),
           (''description'', js_or (description body) (JStr ''Executed from AEP Monitor''))]"

text \<open>
  The calls the rule-based fallback executes for a message: the call bound to the
  first pattern that matches it, and none when no pattern matches.
\<close>

definition fallbackCalls :: "string \<Rightarrow> (string \<times> json) list" where
  "fallbackCalls msg =
     (case find (\<lambda>p. regexTest (match p) msg) patterns of
        None \<Rightarrow> []
      | Some p \<Rightarrow> [(boundTool p, boundArgs p)])"

text \<open>The calls the fallback's patterns are bound to.\<close>

definition boundCalls :: "(string \<times> json) list" where
  "boundCalls = map (\<lambda>p. (boundTool p, boundArgs p)) patterns"

text \<open>A call as the log of executed calls records it.\<close>

definition logged :: "tool_call \<Rightarrow> string \<times> json" where
  "logged call = (name call, arguments call)"

text \<open>The Approval Gate.\<close>

definition needsApproval :: "('w, 'r, 'd) env \<Rightarrow> string \<Rightarrow> bool \<Rightarrow> bool" where
  "needsApproval env nm auto = (requiresApproval env nm \<and> \<not> auto)"

section \<open>Example collaborators\<close>

text \<open>
  A registry in which only \<^verbatim>\<open>execute_sql_query\<close> requires approval, executors that
  answer from a fixed table, and a model whose response is the list of the tool
  calls it asks for, or the error it throws.
\<close>

definition exampleTool :: "string \<Rightarrow> json \<Rightarrow> js_error + json" where
  "exampleTool nm ar =
     (if nm = ''get_failed_batches'' then Inr (JObj [(''batches'', JArr [])])
      else if nm = ''get_batch_stats'' then Inr (JObj [(''total'', JNum 7)])
      else if nm = ''execute_sql_query'' then Inr (JObj [(''rowCount'', JNum 3)])
      else if nm = ''list_datasets'' then Inl (Thrown (JStr ''API Error 500''))
      else if nm = ''get_identity_graph'' then
        Inr (JObj [(''inputIdentity'',
                    JObj [(''namespace'', JStr ''ECID''), (''identity'', JNum 12345)])])
      else Inr (JObj [(''tool'', JStr nm)]))"

definition exampleEnv ::
  "bool \<Rightarrow> js_error + tool_call list \<Rightarrow> (unit, tool_call list, unit) env" where
  "exampleEnv configured answer =
     \<lparr>requiresApproval = (\<lambda>nm. nm = ''execute_sql_query''),
      executeTool = (\<lambda>nm ar w. (exampleTool nm ar, w)),
      getToolDefinitions = (),
      isConfigured = (\<lambda>w. configured),
      chatCompletion = (\<lambda>messages tools opts w. (answer, w)),
      parseToolCalls = (\<lambda>response. Inr (Some response)),
      getContent = (\<lambda>response. Inr ''Done.''),
      jsonStringify = (\<lambda>v. if v = JUndefined then None else Some (toString v)),
      toLocaleString = toString\<rparr>"

definition exampleMessage :: chat_message where
  "exampleMessage = \<lparr>role = ''user'', content = ''hello'', timestamp = JNum 0\<rparr>"

definition sqlCall :: "json \<Rightarrow> tool_call" where
  "sqlCall v = \<lparr>name = ''execute_sql_query'', arguments = JObj [(''sql'', v)]\<rparr>"

definition batchesCall :: tool_call where
  "batchesCall = \<lparr>name = ''get_failed_batches'', arguments = JObj [(''limit'', JNum 5)]\<rparr>"

definition statsCall :: tool_call where
  "statsCall = \<lparr>name = ''get_batch_stats'', arguments = JObj []\<rparr>"

definition exampleInput :: "string \<Rightarrow> chat_message list \<Rightarrow> action option \<Rightarrow> turn_input" where
  "exampleInput msg hist act =
     \<lparr>message = msg, autoMode = False, history = hist, approvedAction = act\<rparr>"

definition sqlAction :: action where
  "sqlAction =
     \<lparr>toolName = ''execute_sql_query'', toolArguments = JObj [(''sql'', JStr ''SELECT 1'')],
      actionDescription = ''Execute SQL query''\<rparr>"


definition sixFields :: json where
  "sixFields =
     JObj [(''a'', JNum 1), (''b'', JNum 2), (''c'', JNum 3), (''d'', JNum 4), (''e'', JNum 5),
           (''f'', JNum 6)]"

text \<open>
  A query service whose job is in the given state whenever it is asked, and whose
  status fetches take \<open>latency\<close> milliseconds each.
\<close>

definition exampleJob :: "string \<Rightarrow> json" where
  "exampleJob st = JObj [(''id'', JStr ''q1''), (''state'', JStr st)]"

definition exampleQueryEnv :: "string \<Rightarrow> nat \<Rightarrow> unit query_env" where
  "exampleQueryEnv st latency =
     \<lparr>createQuery = (\<lambda>queryData w. ((Inr (exampleJob st), 0), w)),
      getQueryDetails = (\<lambda>ident w. ((Inr (exampleJob st), latency), w))\<rparr>"

definition exampleBody :: query_body where
  "exampleBody = \<lparr>sql = JStr ''SELECT 1'', queryName = JStr ''q'', description = JUndefined\<rparr>"

definition startState :: "unit poll_state" where
  "startState = \<lparr>now = 1000, remote = (), submitted = [], sleeps = 0, fetched = []\<rparr>"

section \<open>The fallback example and the default case of the formatter\<close>

lemma first_pattern_matches:
  "find (\<lambda>p. regexTest (match p) ''show me failed batches'') patterns = Some (hd patterns)"
  by code_simp

lemma hd_patterns:
  "boundTool (hd patterns) = ''get_failed_batches''"
  "boundArgs (hd patterns) = JObj [(''limit'', JNum 10)]"
  by (simp_all add: patterns_def)

lemma format_no_batches:
  "formatToolResult dateString ''get_failed_batches'' (JObj [(''batches'', JArr [])]) =
     Inr (checkMark
          @ '' **Great news!** No failed batches found. Your ingestion is running smoothly!\<newline>'')"
  by (simp add: formatToolResult_def formatFailedBatches_def js_or_def optProp_def)

text \<open>
  C8: with no language model configured, the message \<^verbatim>\<open>show me failed batches\<close> matches
  the first pattern of the fallback, \<^verbatim>\<open>get_failed_batches\<close> is executed with the
  pattern's arguments, and when it returns \<^verbatim>\<open>{batches: []}\<close> the content of the
  response is the check mark followed by
  \<^verbatim>\<open> **Great news!** No failed batches found. Your ingestion is running smoothly!\<close>
  and a newline.
\<close>

theorem fallback_failed_batches:
  assumes "approvedAction inp = None"
    and "message inp = ''show me failed batches''"
    and "\<not> isConfigured env (world s)"
    and "executeTool env ''get_failed_batches'' (JObj [(''limit'', JNum 10)]) (world s)
           = (Inr (JObj [(''batches'', JArr [])]), w')"
  shows "find (\<lambda>p. regexTest (match p) (message inp)) patterns = Some (hd patterns)
    \<and> fst (processMessage env inp s)
        = Inr (Reply (checkMark
                      @ '' **Great news!** No failed batches found. Your ingestion is running smoothly!\<newline>'')
                 (Some (JObj [(''batches'', JArr [])])) [''get_failed_batches''])
    \<and> executed (snd (processMessage env inp s))
        = executed s @ [(''get_failed_batches'', JObj [(''limit'', JNum 10)])]"
proof -
  let ?s1 = "s\<lparr>chatHistory := sliceLast 20 (history inp)\<rparr>"
  have turn: "processMessage env inp s = handleWithRules env ''show me failed batches'' ?s1"
    using assms(1-3) by (simp add: processMessage_def tryTurn_def)
  have run: "runTool env ''get_failed_batches'' (JObj [(''limit'', JNum 10)]) ?s1
               = (Inr (JObj [(''batches'', JArr [])]),
                  ?s1\<lparr>world := w', executed := executed s @ [(''get_failed_batches'', JObj [(''limit'', JNum 10)])]\<rparr>)"
    using assms(4) by (simp add: runTool_def)
  have "handleWithRules env ''show me failed batches'' ?s1
          = (Inr (Reply (checkMark
                      @ '' **Great news!** No failed batches found. Your ingestion is running smoothly!\<newline>'')
                 (Some (JObj [(''batches'', JArr [])])) [''get_failed_batches'']),
             ?s1\<lparr>world := w', executed := executed s @ [(''get_failed_batches'', JObj [(''limit'', JNum 10)])]\<rparr>)"
    unfolding handleWithRules_def first_pattern_matches
    by (simp add: hd_patterns run format_no_batches)
  then show ?thesis
    using turn assms(2) first_pattern_matches by simp
qed

theorem fallback_failed_batches_witness:
  "fst (processMessage (exampleEnv False (Inr [])) (exampleInput ''show me failed batches'' [] None)
         (initialState ()))
     = Inr (Reply (checkMark
                   @ '' **Great news!** No failed batches found. Your ingestion is running smoothly!\<newline>'')
              (Some (JObj [(''batches'', JArr [])])) [''get_failed_batches''])"
  using fallback_failed_batches [of "exampleInput ''show me failed batches'' [] None"
          "exampleEnv False (Inr [])" "initialState ()" "()"]
  by (simp add: exampleEnv_def exampleInput_def exampleTool_def initialState_def)

lemma foldl_append_lines:
  "foldl (\<lambda>summary key. summary @ f key) acc keys = acc @ concat (map f keys)"
  by (induction keys arbitrary: acc) simp_all

lemma concat_summaryLines:
  \<open>concat (map (summaryLine v) keys)
     = concat (map (\<lambda>key. bullet @ '' '' @ key @ '': '' @ toString (getProp v key) @ ''\<newline>'')
                 (filter (\<lambda>key. \<not> typeofObject (getProp v key)) keys))\<close>
  by (induction keys) (simp_all add: summaryLine_def)

text \<open>
  C9, as the code has it: for a tool name that no case of the formatter matches, data
  that is an object or an array with at most five keys gives the header line followed
  by one \<^verbatim>\<open>key: value\<close> line for each key whose value is not of type object, in the
  order of the keys; any other data (no object, \<^verbatim>\<open>null\<close>, or more than five keys) gives
  the bare success line.
\<close>

theorem formatToolResult_unmatched:
  assumes "nm \<notin> {''get_failed_batches'', ''get_segment_stats'', ''analyze_batch_errors'',
                        ''get_identity_graph''}"
  shows \<open>formatToolResult dateString nm v =
     Inr (if typeofObject v \<and> v \<noteq> JNull \<and> length (ownKeys v) \<le> 5 then
            package @ '' **'' @ nm @ '' completed:**\<newline>''
            @ concat (map (\<lambda>key. bullet @ '' '' @ key @ '': '' @ toString (getProp v key)
                                @ ''\<newline>'')
                        (filter (\<lambda>key. \<not> typeofObject (getProp v key)) (ownKeys v)))
          else checkMark @ '' **'' @ nm @ ''** completed successfully.\<newline>'')\<close>
proof -
  have "formatToolResult dateString nm v = Inr (formatDefault nm v)"
    using assms by (simp add: formatToolResult_def)
  then show ?thesis
    by (simp add: formatDefault_def foldl_append_lines concat_summaryLines)
qed

theorem formatToolResult_unmatched_witness:
  \<open>formatToolResult toString ''list_datasets''
      (JObj [(''total'', JNum 7), (''page'', JObj []), (''sandbox'', JStr ''prod'')])
     = Inr (package @ '' **list_datasets completed:**\<newline>''
            @ bullet @ '' total: 7\<newline>'' @ bullet @ '' sandbox: prod\<newline>'')\<close>
  using formatToolResult_unmatched [of "''list_datasets''" toString
          "JObj [(''total'', JNum 7), (''page'', JObj []), (''sandbox'', JStr ''prod'')]"]
  by (simp add: ownKeys_def show_int_def show_nat.simps)

text \<open>
  Data with six fields, all of them numbers, is not listed: the result is the bare
  success line.
\<close>

theorem six_scalar_fields_not_listed:
  \<open>formatToolResult toString ''list_datasets'' sixFields
     = Inr (checkMark @ '' **list_datasets** completed successfully.\<newline>'')
   \<and> \<not> typeofObject (getProp sixFields ''a'')\<close>
  by (simp add: formatToolResult_def formatDefault_def sixFields_def ownKeys_def)

section \<open>The tool-call scan\<close>

lemma runTool_frame:
  "runTool env nm ar s = (out, s') \<Longrightarrow>
     chatHistory s' = chatHistory s \<and> executed s' = executed s @ [(nm, ar)]"
  by (auto simp: runTool_def split: prod.splits)

lemma scanTools_pass:
  assumes "auto \<or> (\<forall>c\<in>set calls. \<not> requiresApproval env (name c))"
  shows "\<exists>rs s'. scanTools env auto calls results toolsUsed s
                   = ((results @ rs, toolsUsed @ map name calls, None), s')
               \<and> map tool rs = map name calls
               \<and> executed s' = executed s @ map logged calls
               \<and> chatHistory s' = chatHistory s"
  using assms
proof (induction calls arbitrary: results toolsUsed s)
  case Nil
  then show ?case by simp
next
  case (Cons call rest)
  obtain out s1 where run: "runTool env (name call) (arguments call) s = (out, s1)"
    by (cases "runTool env (name call) (arguments call) s")
  have fr: "chatHistory s1 = chatHistory s" "executed s1 = executed s @ [logged call]"
    using runTool_frame [OF run] by (simp_all add: logged_def)
  have gate: "\<not> (requiresApproval env (name call) \<and> \<not> auto)"
    using Cons.prems by auto
  have rest: "auto \<or> (\<forall>c\<in>set rest. \<not> requiresApproval env (name c))"
    using Cons.prems by auto
  define entry where
    "entry = (case out of
                Inl e \<Rightarrow> \<lparr>tool = name call, data = JUndefined, error = errorMessage e,
                           args = JUndefined\<rparr>
              | Inr result \<Rightarrow> \<lparr>tool = name call, data = result, error = JUndefined,
                                args = arguments call\<rparr>)"
  have step: "scanTools env auto (call # rest) results toolsUsed s
                = scanTools env auto rest (results @ [entry]) (toolsUsed @ [name call]) s1"
    using gate run by (cases out) (auto simp: entry_def)
  have tool_entry: "tool entry = name call"
    by (cases out) (simp_all add: entry_def)
  from Cons.IH [OF rest, of "results @ [entry]" "toolsUsed @ [name call]" s1]
  obtain rs s' where
    scan: "scanTools env auto rest (results @ [entry]) (toolsUsed @ [name call]) s1
             = (((results @ [entry]) @ rs, (toolsUsed @ [name call]) @ map name rest, None), s')"
    and rs: "map tool rs = map name rest"
    and ex: "executed s' = executed s1 @ map logged rest"
    and ch: "chatHistory s' = chatHistory s1"
    by blast
  show ?case
    using step scan rs ex ch fr tool_entry
    by (intro exI [of _ "entry # rs"] exI [of _ s']) simp
qed

lemma scanTools_halt:
  assumes "\<forall>c\<in>set pre. \<not> requiresApproval env (name c)"
    and "requiresApproval env (name call)"
  shows "scanTools env False (pre @ call # post) results toolsUsed s
           = (case scanTools env False pre results toolsUsed s of
                ((rs, tu, p), s') \<Rightarrow> ((rs, tu @ [name call], Some call), s'))"
  using assms
proof (induction pre arbitrary: results toolsUsed s)
  case Nil
  then show ?case by simp
next
  case (Cons c pre)
  then show ?case
    by (auto split: prod.splits sum.splits)
qed

text \<open>
  When auto-mode is false and the \<open>k\<close>-th tool call (counted from 1) is the first
  whose tool requires approval, the scan halts there: the calls executed are exactly
  the calls 1 to \<open>k - 1\<close>, in order, and neither the \<open>k\<close>-th nor any later one.
  The outcome is the pending-approval response with the name, the arguments and the
  action description of the \<open>k\<close>-th call when that description can be built, and
  the error its building throws otherwise; it is the outcome the \<open>k\<close>-th call would
  get alone, in any state and for any message, so it carries nothing of the results
  gathered before.
\<close>

lemma scan_halts_at_first_approval:
  assumes "0 < k" and "k \<le> length toolCalls"
    and "requiresApproval env (name (toolCalls ! (k - 1)))"
    and "\<forall>i < k - 1. \<not> requiresApproval env (name (toolCalls ! i))"
  shows "executed (snd (handleToolCalls env toolCalls False originalMessage s))
           = executed s @ map logged (take (k - 1) toolCalls)
    \<and> fst (handleToolCalls env toolCalls False originalMessage s)
        = (case getActionDescription (name (toolCalls ! (k - 1)))
                  (arguments (toolCalls ! (k - 1))) of
             Inl e \<Rightarrow> Inl e
           | Inr d \<Rightarrow>
               Inr (PendingApproval \<lparr>toolName = name (toolCalls ! (k - 1)),
                                        toolArguments = arguments (toolCalls ! (k - 1)),
                                        actionDescription = d\<rparr>))
    \<and> fst (handleToolCalls env toolCalls False originalMessage s)
        = fst (handleToolCalls env [toolCalls ! (k - 1)] False m0 s0)"
proof -
  define pre where "pre = take (k - 1) toolCalls"
  define call where "call = toolCalls ! (k - 1)"
  define post where "post = drop k toolCalls"
  have split: "toolCalls = pre @ call # post"
    using assms(1,2) id_take_nth_drop [of "k - 1" toolCalls]
    by (simp add: pre_def call_def post_def)
  have pre_ok: "\<forall>c\<in>set pre. \<not> requiresApproval env (name c)"
  proof
    fix c assume "c \<in> set pre"
    then obtain i where "i < length pre" "c = pre ! i"
      by (auto simp: in_set_conv_nth)
    then show "\<not> requiresApproval env (name c)"
      using assms(4) by (simp add: pre_def)
  qed
  have call_gate: "requiresApproval env (name call)"
    using assms(3) by (simp add: call_def)
  from scanTools_pass [of False pre env "[]" "[]" s] pre_ok
  obtain rs s' where
    scan_pre: "scanTools env False pre [] [] s = ((rs, map name pre, None), s')"
    and ex: "executed s' = executed s @ map logged pre"
    by auto
  have scan: "scanTools env False toolCalls [] [] s = ((rs, map name pre @ [name call], Some call), s')"
    unfolding split using scanTools_halt [OF pre_ok call_gate] scan_pre by simp
  define outcome where
    "outcome = (case getActionDescription (name call) (arguments call) of
                  Inl e \<Rightarrow> Inl e
                | Inr d \<Rightarrow>
                    Inr (PendingApproval \<lparr>toolName = name call, toolArguments = arguments call,
                                             actionDescription = d\<rparr>))"
  have whole: "handleToolCalls env toolCalls False originalMessage s = (outcome, s')"
    by (simp add: handleToolCalls_def scan outcome_def split: sum.splits)
  have alone: "handleToolCalls env [call] False m0 s0 = (outcome, s0)"
    using call_gate by (simp add: handleToolCalls_def outcome_def split: sum.splits)
  show ?thesis
    using whole alone ex unfolding outcome_def call_def pre_def by simp
qed

lemma getActionDescription_plain:
  "nm \<notin> {''execute_sql_query'', ''generate_pql_from_description'', ''generate_sql_from_intent''}
     \<Longrightarrow> getActionDescription nm ar = Inr (''Execute '' @ nm)"
  by (simp add: getActionDescription_def)

lemma scan_halts_example:
  "fst (handleToolCalls (exampleEnv True (Inr []))
          [batchesCall, statsCall, sqlCall (JStr ''SELECT 1''), batchesCall] False ''run it''
          (initialState ()))
     = Inr (PendingApproval
              \<lparr>toolName = ''execute_sql_query'', toolArguments = JObj [(''sql'', JStr ''SELECT 1'')],
               actionDescription = ''Execute SQL query:\<newline>```sql\<newline>SELECT 1...\<newline>```''\<rparr>)
   \<and> executed (snd (handleToolCalls (exampleEnv True (Inr []))
          [batchesCall, statsCall, sqlCall (JStr ''SELECT 1''), batchesCall] False ''run it''
          (initialState ())))
     = [logged batchesCall, logged statsCall]"
proof -
  have gate: "\<forall>i < 3 - 1. \<not> requiresApproval (exampleEnv True (Inr []))
                 (name ([batchesCall, statsCall, sqlCall (JStr ''SELECT 1''), batchesCall] ! i))"
    by (simp add: exampleEnv_def batchesCall_def statsCall_def less_Suc_eq numeral_2_eq_2)
  show ?thesis
    using scan_halts_at_first_approval [where k = 3
            and toolCalls = "[batchesCall, statsCall, sqlCall (JStr ''SELECT 1''), batchesCall]"
            and env = "exampleEnv True (Inr [])" and originalMessage = "''run it''"
            and s = "initialState ()" and ?m0.0 = "[]" and ?s0.0 = "initialState ()",
            OF _ _ _ gate]
    by (simp add: exampleEnv_def sqlCall_def getActionDescription_def member_def
                  initialState_def numeral_3_eq_3)
qed

text \<open>
  C1, at an input where the code departs from it. Auto-mode is false, the first call
  needs no approval, and the second is a call of \<^verbatim>\<open>execute_sql_query\<close>, which
  requires approval, with the number 42 for its \<^verbatim>\<open>sql\<close> argument. The scan halts
  at the second call, with the first call executed and no other, and no
  pending-approval response is returned: building the action description throws a
  TypeError, which \<^verbatim>\<open>handleToolCalls\<close> throws on.
\<close>

theorem malformed_sql_argument_raises:
  "requiresApproval (exampleEnv True (Inr [])) (name (sqlCall (JNum 42)))
   \<and> requiresApproval (exampleEnv True (Inr [])) (name batchesCall) = False
   \<and> executed (snd (handleToolCalls (exampleEnv True (Inr [])) [batchesCall, sqlCall (JNum 42)]
                      False ''run it'' (initialState ())))
       = [logged batchesCall]
   \<and> fst (handleToolCalls (exampleEnv True (Inr [])) [batchesCall, sqlCall (JNum 42)] False
            ''run it'' (initialState ()))
       = Inl (notAFunction ''args.sql?.substring'')"
  by (simp add: handleToolCalls_def exampleEnv_def sqlCall_def batchesCall_def runTool_def
                initialState_def exampleTool_def getActionDescription_def member_def
                logged_def)

section \<open>The calls a turn executes\<close>

lemma scanTools_gate:
  "scanTools env auto calls results toolsUsed s = (out, s') \<Longrightarrow>
     \<exists>new. executed s' = executed s @ new
          \<and> (\<forall>c\<in>set new. \<not> needsApproval env (fst c) auto)
          \<and> chatHistory s' = chatHistory s"
proof (induction calls arbitrary: results toolsUsed s)
  case Nil
  then show ?case by simp
next
  case (Cons call rest)
  show ?case
  proof (cases "requiresApproval env (name call) \<and> \<not> auto")
    case True
    then show ?thesis using Cons.prems by auto
  next
    case False
    obtain res s1 where run: "runTool env (name call) (arguments call) s = (res, s1)"
      by (cases "runTool env (name call) (arguments call) s")
    have fr: "chatHistory s1 = chatHistory s"
      "executed s1 = executed s @ [(name call, arguments call)]"
      using runTool_frame [OF run] by simp_all
    from Cons.prems False run obtain results' where
      "scanTools env auto rest results' (toolsUsed @ [name call]) s1 = (out, s')"
      by (cases res) auto
    from Cons.IH [OF this] obtain new where
      "executed s' = executed s1 @ new" "\<forall>c\<in>set new. \<not> needsApproval env (fst c) auto"
      "chatHistory s' = chatHistory s1"
      by blast
    then show ?thesis
      using fr False
      by (intro exI [of _ "(name call, arguments call) # new"]) (simp add: needsApproval_def)
  qed
qed

lemma trySummarize_frame:
  "trySummarize env results toolsUsed originalMessage s = (out, s') \<Longrightarrow>
     executed s' = executed s \<and> chatHistory s' = chatHistory s"
  by (auto simp: trySummarize_def split: sum.splits prod.splits if_splits)

lemma summarize_frame:
  "summarizeResultsWithLLM env results toolsUsed originalMessage s = (out, s') \<Longrightarrow>
     executed s' = executed s \<and> chatHistory s' = chatHistory s"
  by (auto simp: summarizeResultsWithLLM_def split: sum.splits prod.splits if_splits
           dest: trySummarize_frame)

lemma handleToolCalls_gate:
  assumes "handleToolCalls env calls auto originalMessage s = (out, s')"
  shows "\<exists>new. executed s' = executed s @ new
          \<and> (\<forall>c\<in>set new. \<not> needsApproval env (fst c) auto)
          \<and> chatHistory s' = chatHistory s"
proof -
  obtain results toolsUsed pending s1 where
    scan: "scanTools env auto calls [] [] s = ((results, toolsUsed, pending), s1)"
    by (metis prod.exhaust)
  from scanTools_gate [OF scan] obtain new where new:
    "executed s1 = executed s @ new" "\<forall>c\<in>set new. \<not> needsApproval env (fst c) auto"
    "chatHistory s1 = chatHistory s"
    by blast
  have "executed s' = executed s1 \<and> chatHistory s' = chatHistory s1"
  proof (cases pending)
    case None
    then show ?thesis
      using assms scan summarize_frame by (simp add: handleToolCalls_def)
  next
    case (Some p)
    then show ?thesis
      using assms scan by (auto simp: handleToolCalls_def split: sum.splits)
  qed
  then show ?thesis using new by auto
qed

lemma handleWithRules_frame:
  assumes "handleWithRules env msg s = (out, s')"
  shows "chatHistory s' = chatHistory s \<and> (\<exists>r. out = Inr r)
          \<and> (executed s' = executed s \<or> (\<exists>c\<in>set boundCalls. executed s' = executed s @ [c]))"
proof (cases "find (\<lambda>p. regexTest (match p) msg) patterns")
  case None
  then show ?thesis using assms by (auto simp: handleWithRules_def)
next
  case (Some p)
  then have "p \<in> set patterns"
    by (auto simp: find_Some_iff)
  then have bound: "(boundTool p, boundArgs p) \<in> set boundCalls"
    by (auto simp: boundCalls_def)
  obtain res s1 where run: "runTool env (boundTool p) (boundArgs p) s = (res, s1)"
    by (cases "runTool env (boundTool p) (boundArgs p) s")
  have fr: "chatHistory s1 = chatHistory s"
    "executed s1 = executed s @ [(boundTool p, boundArgs p)]"
    using runTool_frame [OF run] by simp_all
  have "s' = s1 \<and> (\<exists>r. out = Inr r)"
    using assms Some run by (auto simp: handleWithRules_def split: sum.splits)
  then show ?thesis using fr bound by auto
qed

lemma executeApprovedAction_frame:
  assumes "executeApprovedAction env act s = (out, s')"
  shows "chatHistory s' = chatHistory s
          \<and> executed s' = executed s @ [(toolName act, toolArguments act)]"
proof -
  obtain res s1 where run: "runTool env (toolName act) (toolArguments act) s = (res, s1)"
    by (cases "runTool env (toolName act) (toolArguments act) s")
  have fr: "chatHistory s1 = chatHistory s"
    "executed s1 = executed s @ [(toolName act, toolArguments act)]"
    using runTool_frame [OF run] by simp_all
  have "executed s' = executed s1 \<and> chatHistory s' = chatHistory s1"
    using assms run
    by (cases res) (auto simp: executeApprovedAction_def dest: summarize_frame)
  then show ?thesis using fr by simp
qed

lemma catchAgentError_frame:
  assumes "catchAgentError env msg e s = (out, s')"
  shows "chatHistory s' = chatHistory s
          \<and> (executed s' = executed s \<or> (\<exists>c\<in>set boundCalls. executed s' = executed s @ [c]))"
  using assms handleWithRules_frame [of env msg s out s']
  by (auto simp: catchAgentError_def split: if_splits)

lemma tryTurn_frame:
  assumes "tryTurn env messages msg auto s = (out, s')"
  shows "chatHistory s' = chatHistory s
          \<and> (\<exists>new. executed s' = executed s @ new
                \<and> ((\<forall>c\<in>set new. \<not> needsApproval env (fst c) auto)
                    \<or> (\<exists>c\<in>set boundCalls. new = [c])))"
proof (cases "isConfigured env (world s)")
  case False
  then have "handleWithRules env msg s = (out, s')"
    using assms by (simp add: tryTurn_def)
  from handleWithRules_frame [OF this] show ?thesis by auto
next
  case True
  obtain res w' where chat:
    "chatCompletion env messages (Some (getToolDefinitions env))
       \<lparr>temperature = 7 / 10, maxTokens = 4096\<rparr> (world s) = (res, w')"
    by (metis prod.exhaust)
  let ?s1 = "s\<lparr>world := w'\<rparr>"
  have s1: "chatHistory ?s1 = chatHistory s" "executed ?s1 = executed s"
    by simp_all
  consider
      (caught) e where "catchAgentError env msg e ?s1 = (out, s')"
    | (calls) cs where "handleToolCalls env cs auto msg ?s1 = (out, s')"
    | (plain) "s' = ?s1"
    using assms True chat
    by (auto simp: tryTurn_def split: sum.splits option.splits list.splits)
  then show ?thesis
  proof cases
    case caught
    from catchAgentError_frame [OF this] s1 show ?thesis by auto
  next
    case calls
    from handleToolCalls_gate [OF this] s1 show ?thesis by auto
  next
    case plain
    then show ?thesis by auto
  qed
qed

lemma summarize_gate:
  "summarizeResultsWithLLM (env\<lparr>requiresApproval := gate\<rparr>) results toolsUsed originalMessage s
     = summarizeResultsWithLLM env results toolsUsed originalMessage s"
  by (simp add: summarizeResultsWithLLM_def trySummarize_def
           cong: sum.case_cong prod.case_cong if_cong)

lemma executeApprovedAction_gate:
  "executeApprovedAction (env\<lparr>requiresApproval := gate\<rparr>) act s = executeApprovedAction env act s"
  by (simp add: executeApprovedAction_def runTool_def summarize_gate
           cong: sum.case_cong prod.case_cong)

lemma handleWithRules_gate:
  "handleWithRules (env\<lparr>requiresApproval := gate\<rparr>) msg s = handleWithRules env msg s"
  by (simp add: handleWithRules_def runTool_def
           cong: option.case_cong sum.case_cong prod.case_cong)

lemma handleWithRules_executed:
  "executed (snd (handleWithRules env msg s)) = executed s @ fallbackCalls msg"
proof (cases "find (\<lambda>p. regexTest (match p) msg) patterns")
  case None
  then show ?thesis by (simp add: handleWithRules_def fallbackCalls_def)
next
  case (Some p)
  obtain res s1 where run: "runTool env (boundTool p) (boundArgs p) s = (res, s1)"
    by (cases "runTool env (boundTool p) (boundArgs p) s")
  have ran: "executed s1 = executed s @ [(boundTool p, boundArgs p)]"
    using runTool_frame [OF run] by simp
  have "snd (handleWithRules env msg s) = s1"
    using Some run by (auto simp: handleWithRules_def split: sum.splits)
  then show ?thesis
    using Some ran by (simp add: fallbackCalls_def)
qed

lemma catchAgentError_calls:
  "executed (snd (catchAgentError env msg e s))
     = executed s @ (if truthy (errorMessage e) then fallbackCalls msg else [])"
  by (simp add: catchAgentError_def handleWithRules_executed)

lemma tryTurn_calls:
  assumes "tryTurn env messages msg auto s = (out, s')"
  shows "\<exists>new. executed s' = executed s @ new
           \<and> ((\<forall>c\<in>set new. \<not> needsApproval env (fst c) auto) \<or> new = fallbackCalls msg)"
proof (cases "isConfigured env (world s)")
  case False
  then have "handleWithRules env msg s = (out, s')"
    using assms by (simp add: tryTurn_def)
  then have "executed s' = executed s @ fallbackCalls msg"
    using handleWithRules_executed [of env msg s] by simp
  then show ?thesis by blast
next
  case True
  obtain res w' where chat:
    "chatCompletion env messages (Some (getToolDefinitions env))
       \<lparr>temperature = 7 / 10, maxTokens = 4096\<rparr> (world s) = (res, w')"
    by (metis prod.exhaust)
  let ?s1 = "s\<lparr>world := w'\<rparr>"
  have s1: "executed ?s1 = executed s"
    by simp
  consider
      (caught) e where "catchAgentError env msg e ?s1 = (out, s')"
    | (calls) cs where "handleToolCalls env cs auto msg ?s1 = (out, s')"
    | (plain) "s' = ?s1"
    using assms True chat
    by (auto simp: tryTurn_def split: sum.splits option.splits list.splits)
  then show ?thesis
  proof cases
    case caught
    then have "executed s'
                 = executed s @ (if truthy (errorMessage e) then fallbackCalls msg else [])"
      using catchAgentError_calls [of env msg e ?s1] by simp
    then show ?thesis
      by (cases "truthy (errorMessage e)") auto
  next
    case calls
    from handleToolCalls_gate [OF this] s1 show ?thesis by auto
  next
    case plain
    then show ?thesis by auto
  qed
qed

lemma fallbackCalls_failed_batches:
  "fallbackCalls ''show me failed batches'' = [(''get_failed_batches'', JObj [(''limit'', JNum 10)])]"
  by (simp add: fallbackCalls_def first_pattern_matches hd_patterns)

text \<open>
  C2, as the code has it: the tool-call scan never executes a call that the approval
  gate holds back (its tool requires approval and auto-mode is false). The
  approved-action path executes the call named in \<^verbatim>\<open>approvedAction\<close> and nothing else,
  whatever the registry's approval flags are. The rule-based fallback executes the
  call bound to the first pattern that matches the message, and nothing when no
  pattern matches, whatever the registry's approval flags are; it is the turn when
  no approved action is given and the model is not configured. A turn without
  approved action executes either calls that pass the gate, or the calls of the
  fallback for its message.
\<close>

theorem calls_executed_in_a_turn:
  "(\<exists>new. executed (snd (handleToolCalls env calls auto originalMessage s)) = executed s @ new
        \<and> (\<forall>c\<in>set new. \<not> needsApproval env (fst c) auto))
   \<and> (\<exists>new. executed (snd (processMessage env inp s)) = executed s @ new
        \<and> (case approvedAction inp of
              Some act \<Rightarrow> new = [(toolName act, toolArguments act)]
            | None \<Rightarrow> (\<forall>c\<in>set new. \<not> needsApproval env (fst c) (autoMode inp))
                      \<or> new = fallbackCalls (message inp)))
   \<and> executed (snd (handleWithRules env msg s)) = executed s @ fallbackCalls msg
   \<and> handleWithRules (env\<lparr>requiresApproval := gate\<rparr>) msg s = handleWithRules env msg s
   \<and> executeApprovedAction (env\<lparr>requiresApproval := gate\<rparr>) approved s
       = executeApprovedAction env approved s
   \<and> (approvedAction inp = None \<and> \<not> isConfigured env (world s) \<longrightarrow>
        processMessage env inp s
          = handleWithRules env (message inp) (s\<lparr>chatHistory := sliceLast 20 (history inp)\<rparr>))"
proof (intro conjI)
  show "\<exists>new. executed (snd (handleToolCalls env calls auto originalMessage s)) = executed s @ new
        \<and> (\<forall>c\<in>set new. \<not> needsApproval env (fst c) auto)"
    using handleToolCalls_gate [of env calls auto originalMessage s] 
    by (metis prod.collapse)
next
  show "\<exists>new. executed (snd (processMessage env inp s)) = executed s @ new
        \<and> (case approvedAction inp of
              Some act \<Rightarrow> new = [(toolName act, toolArguments act)]
            | None \<Rightarrow> (\<forall>c\<in>set new. \<not> needsApproval env (fst c) (autoMode inp))
                      \<or> new = fallbackCalls (message inp))"
  proof (cases "approvedAction inp")
    case (Some act)
    then have "processMessage env inp s = executeApprovedAction env act s"
      by (simp add: processMessage_def)
    then have "executed (snd (processMessage env inp s))
                 = executed s @ [(toolName act, toolArguments act)]"
      using executeApprovedAction_frame [OF surjective_pairing, of env act s] by simp
    then show ?thesis
      using Some by simp
  next
    case None
    let ?s1 = "s\<lparr>chatHistory := sliceLast 20 (history inp)\<rparr>"
    have "processMessage env inp s
            = tryTurn env (buildMessages (sliceLast 20 (history inp)) (message inp))
                (message inp) (autoMode inp) ?s1"
      using None by (simp add: processMessage_def)
    then obtain out s' where
      "tryTurn env (buildMessages (sliceLast 20 (history inp)) (message inp))
         (message inp) (autoMode inp) ?s1 = (out, s')"
      and "snd (processMessage env inp s) = s'"
      by (metis prod.collapse)
    then show ?thesis
      using None tryTurn_calls [of env _ "message inp" "autoMode inp" ?s1 out s'] by auto
  qed
next
  show "executed (snd (handleWithRules env msg s)) = executed s @ fallbackCalls msg"
    by (rule handleWithRules_executed)
next
  show "handleWithRules (env\<lparr>requiresApproval := gate\<rparr>) msg s = handleWithRules env msg s"
    by (rule handleWithRules_gate)
next
  show "executeApprovedAction (env\<lparr>requiresApproval := gate\<rparr>) approved s
          = executeApprovedAction env approved s"
    by (rule executeApprovedAction_gate)
next
  show "approvedAction inp = None \<and> \<not> isConfigured env (world s) \<longrightarrow>
        processMessage env inp s
          = handleWithRules env (message inp) (s\<lparr>chatHistory := sliceLast 20 (history inp)\<rparr>)"
    by (simp add: processMessage_def tryTurn_def)
qed

theorem calls_executed_in_a_turn_witness:
  "executed (snd (processMessage (exampleEnv False (Inr []))
                    (exampleInput ''show me failed batches'' [] None) (initialState ())))
     = [(''get_failed_batches'', JObj [(''limit'', JNum 10)])]
   \<and> executed (snd (handleWithRules (exampleEnv False (Inr [])) ''show me failed batches''
                      (initialState ())))
     = [(''get_failed_batches'', JObj [(''limit'', JNum 10)])]"
proof -
  let ?env = "exampleEnv False (Inr [])"
  let ?inp = "exampleInput ''show me failed batches'' [] None"
  let ?s1 = "(initialState ())\<lparr>chatHistory := sliceLast 20 (history ?inp)\<rparr>"
  note turn = calls_executed_in_a_turn [where env = ?env and inp = ?inp and s = "initialState ()"
                 and msg = "''show me failed batches''" and gate = "\<lambda>nm. True"
                 and approved = sqlAction and calls = "[]" and auto = False
                 and originalMessage = "[]"]
  note fallback = calls_executed_in_a_turn [where env = ?env and inp = ?inp and s = ?s1
                 and msg = "''show me failed batches''" and gate = "\<lambda>nm. True"
                 and approved = sqlAction and calls = "[]" and auto = False
                 and originalMessage = "[]"]
  have unconfigured: "approvedAction ?inp = None \<and> \<not> isConfigured ?env (world (initialState ()))"
    by (simp add: exampleInput_def exampleEnv_def)
  have msg: "message ?inp = ''show me failed batches''"
    by (simp add: exampleInput_def)
  from turn unconfigured
  have "processMessage ?env ?inp (initialState ()) = handleWithRules ?env (message ?inp) ?s1"
    by blast
  moreover from fallback
  have "executed (snd (handleWithRules ?env ''show me failed batches'' ?s1))
          = executed ?s1 @ fallbackCalls ''show me failed batches''"
    by blast
  ultimately have a: "executed (snd (processMessage ?env ?inp (initialState ())))
                        = [(''get_failed_batches'', JObj [(''limit'', JNum 10)])]"
    by (simp add: msg fallbackCalls_failed_batches initialState_def)
  from turn
  have "executed (snd (handleWithRules ?env ''show me failed batches'' (initialState ())))
          = executed (initialState ()) @ fallbackCalls ''show me failed batches''"
    by blast
  then have b: "executed (snd (handleWithRules ?env ''show me failed batches'' (initialState ())))
                  = [(''get_failed_batches'', JObj [(''limit'', JNum 10)])]"
    by (simp add: fallbackCalls_failed_batches initialState_def)
  from a b show ?thesis by blast
qed

text \<open>
  On the approved-action path a tool that requires approval is executed while
  auto-mode is false.
\<close>

theorem approved_action_runs_gated_tool:
  "needsApproval (exampleEnv False (Inr [])) (toolName sqlAction)
     (autoMode (exampleInput ''__EXECUTE_APPROVED__'' [] (Some sqlAction)))
   \<and> executed (snd (processMessage (exampleEnv False (Inr []))
                      (exampleInput ''__EXECUTE_APPROVED__'' [] (Some sqlAction))
                      (initialState ())))
       = [(toolName sqlAction, toolArguments sqlAction)]"
  by (simp add: processMessage_def executeApprovedAction_def exampleEnv_def exampleInput_def
                sqlAction_def runTool_def initialState_def exampleTool_def needsApproval_def
                summarizeResultsWithLLM_def)

section \<open>The response to a scan that meets no approval boundary\<close>

lemma formatLoop_data:
  "formatLoop dateString results contentAcc dataAcc = Inr (c, d) \<Longrightarrow>
     d = (case filter (\<lambda>r. \<not> truthy (error r)) results of
            [] \<Rightarrow> dataAcc
          | r # rs \<Rightarrow> data (last (r # rs)))"
proof (induction results arbitrary: contentAcc dataAcc)
  case Nil
  then show ?case by simp
next
  case (Cons result rest)
  show ?case
  proof (cases "truthy (error result)")
    case True
    then show ?thesis using Cons by simp
  next
    case False
    then obtain piece where
      "formatLoop dateString rest (contentAcc @ piece) (data result) = Inr (c, d)"
      using Cons.prems by (auto split: sum.splits)
    from Cons.IH [OF this] show ?thesis
      using False by (simp split: list.splits)
  qed
qed

lemma formatResultsBasic_shape:
  "formatResultsBasic dateString results toolsUsed = Inr r \<Longrightarrow>
     \<exists>c. r = Reply c (Some (lastSuccessData results)) toolsUsed"
  by (auto simp: formatResultsBasic_def lastSuccessData_def split: sum.splits
           dest!: formatLoop_data)

lemma trySummarize_shape:
  "trySummarize env results toolsUsed originalMessage s = (Inr r, s') \<Longrightarrow>
     \<exists>c. r = Reply c (Some (summaryData results)) toolsUsed"
  by (auto simp: trySummarize_def split: sum.splits prod.splits if_splits)

lemma summarize_shape:
  assumes "summarizeResultsWithLLM env results toolsUsed originalMessage s = (out, s')"
  shows "case out of
           Inr r \<Rightarrow> (\<exists>c. r = Reply c (Some (summaryData results)) toolsUsed
                          \<and> isConfigured env (world s))
                    \<or> (\<exists>c. r = Reply c (Some (lastSuccessData results)) toolsUsed)
         | Inl e \<Rightarrow> formatResultsBasic (toLocaleString env) results toolsUsed = Inl e"
proof (cases "isConfigured env (world s)")
  case False
  then have "out = formatResultsBasic (toLocaleString env) results toolsUsed"
    using assms by (simp add: summarizeResultsWithLLM_def)
  then show ?thesis
    using formatResultsBasic_shape [of "toLocaleString env" results toolsUsed]
    by (auto split: sum.splits)
next
  case True
  obtain res s1 where attempt: "trySummarize env results toolsUsed originalMessage s = (res, s1)"
    by (cases "trySummarize env results toolsUsed originalMessage s")
  show ?thesis
  proof (cases res)
    case (Inl e)
    then have "out = formatResultsBasic (toLocaleString env) results toolsUsed"
      using assms True attempt by (simp add: summarizeResultsWithLLM_def)
    then show ?thesis
      using formatResultsBasic_shape [of "toLocaleString env" results toolsUsed]
      by (auto split: sum.splits)
  next
    case (Inr r)
    then have "out = Inr r"
      using assms True attempt by (simp add: summarizeResultsWithLLM_def)
    then show ?thesis
      using trySummarize_shape [of env results toolsUsed originalMessage s r s1] attempt Inr True
      by auto
  qed
qed






section \<open>The stored chat history\<close>

lemma runTool_history:
  "runTool env nm ar (s\<lparr>chatHistory := h\<rparr>)
     = apsnd (\<lambda>t. t\<lparr>chatHistory := h\<rparr>) (runTool env nm ar s)"
  by (simp add: runTool_def split: prod.splits)

lemma trySummarize_history:
  "trySummarize env results toolsUsed originalMessage (s\<lparr>chatHistory := h\<rparr>)
     = apsnd (\<lambda>t. t\<lparr>chatHistory := h\<rparr>) (trySummarize env results toolsUsed originalMessage s)"
  by (simp add: trySummarize_def split: sum.splits prod.splits)

lemma summarize_history:
  "summarizeResultsWithLLM env results toolsUsed originalMessage (s\<lparr>chatHistory := h\<rparr>)
     = apsnd (\<lambda>t. t\<lparr>chatHistory := h\<rparr>)
         (summarizeResultsWithLLM env results toolsUsed originalMessage s)"
  by (simp add: summarizeResultsWithLLM_def trySummarize_history split: sum.splits prod.splits)

lemma executeApprovedAction_history:
  "executeApprovedAction env act (s\<lparr>chatHistory := h\<rparr>)
     = apsnd (\<lambda>t. t\<lparr>chatHistory := h\<rparr>) (executeApprovedAction env act s)"
  by (simp add: executeApprovedAction_def runTool_history summarize_history
           split: sum.splits prod.splits)

lemma length_sliceLast: "length (sliceLast n xs) = min n (length xs)"
  by (simp add: sliceLast_def)

lemma sliceLast_idem: "sliceLast n (sliceLast n xs) = sliceLast n xs"
  by (simp add: sliceLast_def)

lemma processMessage_turn:
  "approvedAction inp = None \<Longrightarrow>
     processMessage env inp s
       = tryTurn env (buildMessages (sliceLast 20 (history inp)) (message inp)) (message inp)
           (autoMode inp) (s\<lparr>chatHistory := sliceLast 20 (history inp)\<rparr>)"
  by (simp add: processMessage_def)

lemma processMessage_history:
  "chatHistory (snd (processMessage env inp s))
     = (case approvedAction inp of
          None \<Rightarrow> sliceLast 20 (history inp)
        | Some act \<Rightarrow> chatHistory s)"
proof (cases "approvedAction inp")
  case None
  obtain out s' where
    turn: "tryTurn env (buildMessages (sliceLast 20 (history inp)) (message inp)) (message inp)
             (autoMode inp) (s\<lparr>chatHistory := sliceLast 20 (history inp)\<rparr>) = (out, s')"
    by (metis prod.exhaust)
  from tryTurn_frame [OF turn] show ?thesis
    using None turn by (simp add: processMessage_turn)
next
  case (Some act)
  obtain out s' where run: "executeApprovedAction env act s = (out, s')"
    by (metis prod.exhaust)
  from executeApprovedAction_frame [OF run] show ?thesis
    using Some run by (simp add: processMessage_def)
qed

text \<open>
  C5, as the code has it: the module keeps one entity across turns, the variable
  \<^verbatim>\<open>chatHistory\<close>. A turn without approved action overwrites it with the last 20
  entries of the history the caller supplied, a turn with an approved action leaves
  it as it is, \<^verbatim>\<open>getHistory\<close> returns it and \<^verbatim>\<open>clearHistory\<close> empties it. What is
  stored never reaches a turn: the response of \<^verbatim>\<open>processMessage\<close> and its effects
  outside the module are the same whatever the variable holds.
\<close>

theorem stored_history_persists_unread:
  "fst (processMessage env inp (s\<lparr>chatHistory := h\<rparr>)) = fst (processMessage env inp s)
   \<and> world (snd (processMessage env inp (s\<lparr>chatHistory := h\<rparr>)))
       = world (snd (processMessage env inp s))
   \<and> executed (snd (processMessage env inp (s\<lparr>chatHistory := h\<rparr>)))
       = executed (snd (processMessage env inp s))
   \<and> getHistory (snd (processMessage env inp s))
       = (case approvedAction inp of
            None \<Rightarrow> sliceLast 20 (history inp)
          | Some act \<Rightarrow> getHistory s)
   \<and> getHistory (clearHistory s) = []"
proof -
  have "processMessage env inp (s\<lparr>chatHistory := h\<rparr>)
          = (case approvedAction inp of
               None \<Rightarrow> processMessage env inp s
             | Some act \<Rightarrow> apsnd (\<lambda>t. t\<lparr>chatHistory := h\<rparr>) (processMessage env inp s))"
    by (cases "approvedAction inp")
       (simp_all add: processMessage_def executeApprovedAction_history)
  then have "fst (processMessage env inp (s\<lparr>chatHistory := h\<rparr>)) = fst (processMessage env inp s)"
    and "world (snd (processMessage env inp (s\<lparr>chatHistory := h\<rparr>)))
           = world (snd (processMessage env inp s))"
    and "executed (snd (processMessage env inp (s\<lparr>chatHistory := h\<rparr>)))
           = executed (snd (processMessage env inp s))"
    by (cases "approvedAction inp"; simp)+
  moreover have "getHistory (snd (processMessage env inp s))
       = (case approvedAction inp of
            None \<Rightarrow> sliceLast 20 (history inp)
          | Some act \<Rightarrow> getHistory s)"
    using processMessage_history [of env inp s]
    by (simp add: getHistory_def cong: option.case_cong)
  moreover have "getHistory (clearHistory s) = []"
    by (simp add: getHistory_def clearHistory_def)
  ultimately show ?thesis by blast
qed

theorem stored_history_persists_unread_witness:
  "getHistory (snd (processMessage (exampleEnv False (Inr []))
                      (exampleInput ''__EXECUTE_APPROVED__'' [] (Some sqlAction))
                      ((initialState ())\<lparr>chatHistory := [exampleMessage]\<rparr>)))
     = [exampleMessage]
   \<and> fst (processMessage (exampleEnv False (Inr []))
            (exampleInput ''__EXECUTE_APPROVED__'' [] (Some sqlAction))
            ((initialState ())\<lparr>chatHistory := [exampleMessage]\<rparr>))
     = fst (processMessage (exampleEnv False (Inr []))
              (exampleInput ''__EXECUTE_APPROVED__'' [] (Some sqlAction)) (initialState ()))"
proof -
  let ?env = "exampleEnv False (Inr [])"
  let ?inp = "exampleInput ''__EXECUTE_APPROVED__'' [] (Some sqlAction)"
  let ?held = "(initialState ())\<lparr>chatHistory := [exampleMessage]\<rparr>"
  from stored_history_persists_unread [where env = ?env and inp = ?inp and s = ?held and h = "[]"]
  have "getHistory (snd (processMessage ?env ?inp ?held))
          = (case approvedAction ?inp of
               None \<Rightarrow> sliceLast 20 (history ?inp)
             | Some act \<Rightarrow> getHistory ?held)"
    by blast
  then have kept: "getHistory (snd (processMessage ?env ?inp ?held)) = [exampleMessage]"
    by (simp add: exampleInput_def getHistory_def)
  from stored_history_persists_unread [where env = ?env and inp = ?inp and s = "initialState ()"
         and h = "[exampleMessage]"]
  have "fst (processMessage ?env ?inp ?held) = fst (processMessage ?env ?inp (initialState ()))"
    by blast
  with kept show ?thesis by blast
qed

text \<open>
  After a turn that was given a history of one message, the module holds that
  message, and the next request for the history gets it: the initial state, in
  which the history is empty, is not restored.
\<close>

theorem history_survives_the_turn:
  "getHistory (initialState ()) = []
   \<and> getHistory (snd (processMessage (exampleEnv False (Inr []))
                        (exampleInput ''hello'' [exampleMessage] None) (initialState ())))
       = [exampleMessage]"
  by (simp add: processMessage_def tryTurn_def handleWithRules_def exampleEnv_def
                exampleInput_def initialState_def getHistory_def sliceLast_def
                patterns_def regexTest_def matchAt_def startsWith_def lowerChar_def
                lineTerminatorAt_def)

section \<open>Truncation of the history\<close>

text \<open>
  C6: a turn without approved action stores the last 20 entries of the history it
  was given, which for a history of more than 20 entries are its most recent 20, and
  builds the model's context from the stored entries: the turn is the one the
  truncated history would give. A turn with an approved action leaves the stored
  history alone, so the history held never has more than 20 entries.
\<close>

theorem history_truncated_to_20:
  "(approvedAction inp = None \<longrightarrow>
      chatHistory (snd (processMessage env inp s)) = sliceLast 20 (history inp)
      \<and> (20 < length (history inp) \<longrightarrow>
           chatHistory (snd (processMessage env inp s))
             = drop (length (history inp) - 20) (history inp)
           \<and> length (chatHistory (snd (processMessage env inp s))) = 20)
      \<and> processMessage env inp s
          = tryTurn env (buildMessages (sliceLast 20 (history inp)) (message inp)) (message inp)
              (autoMode inp) (s\<lparr>chatHistory := sliceLast 20 (history inp)\<rparr>)
      \<and> length (buildMessages (sliceLast 20 (history inp)) (message inp)) \<le> 22
      \<and> processMessage env inp s
          = processMessage env (inp\<lparr>history := sliceLast 20 (history inp)\<rparr>) s)
   \<and> (length (chatHistory s) \<le> 20 \<longrightarrow>
        length (chatHistory (snd (processMessage env inp s))) \<le> 20)"
proof -
  have stored: "chatHistory (snd (processMessage env inp s))
                  = (case approvedAction inp of
                       None \<Rightarrow> sliceLast 20 (history inp)
                     | Some act \<Rightarrow> chatHistory s)"
    by (rule processMessage_history)
  have same: "approvedAction inp = None \<Longrightarrow>
                processMessage env inp s
                  = processMessage env (inp\<lparr>history := sliceLast 20 (history inp)\<rparr>) s"
    by (simp add: processMessage_def sliceLast_idem)
  have bound: "length (chatHistory s) \<le> 20 \<Longrightarrow>
                 length (chatHistory (snd (processMessage env inp s))) \<le> 20"
    using stored by (cases "approvedAction inp") (simp_all add: length_sliceLast)
  have ctx: "length (buildMessages (sliceLast 20 (history inp)) (message inp)) \<le> 22"
    by (simp add: buildMessages_def length_sliceLast)
  have kept: "approvedAction inp = None \<Longrightarrow>
                chatHistory (snd (processMessage env inp s)) = sliceLast 20 (history inp)"
    using stored by simp
  have recent: "approvedAction inp = None \<Longrightarrow> 20 < length (history inp) \<Longrightarrow>
                  chatHistory (snd (processMessage env inp s))
                    = drop (length (history inp) - 20) (history inp)
                  \<and> length (chatHistory (snd (processMessage env inp s))) = 20"
    using stored by (simp add: sliceLast_def)
  show ?thesis
    using kept recent processMessage_turn [of inp env s] ctx same bound by blast
qed

theorem history_truncated_to_20_witness:
  "chatHistory (snd (processMessage (exampleEnv False (Inr []))
                       (exampleInput ''hello'' (replicate 25 exampleMessage) None)
                       (initialState ())))
     = replicate 20 exampleMessage"
proof -
  have "approvedAction (exampleInput ''hello'' (replicate 25 exampleMessage) None) = None"
    by (simp add: exampleInput_def)
  with history_truncated_to_20 [of "exampleInput ''hello'' (replicate 25 exampleMessage) None"
          "exampleEnv False (Inr [])" "initialState ()"]
  have "chatHistory (snd (processMessage (exampleEnv False (Inr []))
                       (exampleInput ''hello'' (replicate 25 exampleMessage) None)
                       (initialState ())))
          = sliceLast 20 (history (exampleInput ''hello'' (replicate 25 exampleMessage) None))"
    by blast
  then show ?thesis
    by (simp add: exampleInput_def sliceLast_def)
qed

section \<open>The approved action\<close>




section \<open>Errors of the language model\<close>

lemma tryTurn_llmThrows:
  assumes "isConfigured env (world s)"
    and "llmThrows env messages (world s) e w'"
  shows "tryTurn env messages msg auto s = catchAgentError env msg e (s\<lparr>world := w'\<rparr>)"
proof -
  obtain res w1 where chat:
    "chatCompletion env messages (Some (getToolDefinitions env))
       \<lparr>temperature = 7 / 10, maxTokens = 4096\<rparr> (world s) = (res, w1)"
    by (metis prod.exhaust)
  show ?thesis
  proof (cases res)
    case (Inl e1)
    then show ?thesis
      using assms chat by (simp add: tryTurn_def llmThrows_def)
  next
    case (Inr response)
    then show ?thesis
      using assms chat
      by (auto simp: tryTurn_def llmThrows_def split: sum.splits option.splits list.splits)
  qed
qed

lemma no_pattern_matches_hello:
  "find (\<lambda>p. regexTest (match p) ''hello'') patterns = None"
  by code_simp

text \<open>
  C7, as the code has it: when the language model's client throws while
  \<^verbatim>\<open>processMessage\<close> obtains the model's answer, and the error has a message that is
  truthy, the turn is the rule-based fallback on the caller's message: it returns a
  response and no error, and when no pattern matches, the response is the help
  message. When the error's message is falsy (the empty string, or missing), the
  turn throws that error on, with no fallback.
\<close>

theorem llm_error_falls_back_to_rules:
  assumes "approvedAction inp = None"
    and "isConfigured env (world s)"
    and "llmThrows env (buildMessages (sliceLast 20 (history inp)) (message inp)) (world s) e w'"
  shows "(truthy (errorMessage e) \<longrightarrow>
           processMessage env inp s
             = handleWithRules env (message inp)
                 (s\<lparr>chatHistory := sliceLast 20 (history inp), world := w'\<rparr>)
           \<and> (\<exists>r. fst (processMessage env inp s) = Inr r)
           \<and> (find (\<lambda>p. regexTest (match p) (message inp)) patterns = None
                 \<longrightarrow> fst (processMessage env inp s) = Inr (Reply helpMessage None [])))
    \<and> (\<not> truthy (errorMessage e) \<longrightarrow>
           processMessage env inp s
             = (Inl e, s\<lparr>chatHistory := sliceLast 20 (history inp), world := w'\<rparr>))"
proof -
  let ?s1 = "s\<lparr>chatHistory := sliceLast 20 (history inp)\<rparr>"
  have "processMessage env inp s
          = tryTurn env (buildMessages (sliceLast 20 (history inp)) (message inp)) (message inp)
              (autoMode inp) ?s1"
    using assms(1) by (rule processMessage_turn)
  also have "\<dots> = catchAgentError env (message inp) e (?s1\<lparr>world := w'\<rparr>)"
    using assms(2,3) by (intro tryTurn_llmThrows) simp_all
  finally have caught: "processMessage env inp s
          = catchAgentError env (message inp) e
              (s\<lparr>chatHistory := sliceLast 20 (history inp), world := w'\<rparr>)"
    by simp
  have rethrown: "\<not> truthy (errorMessage e) \<longrightarrow>
           processMessage env inp s
             = (Inl e, s\<lparr>chatHistory := sliceLast 20 (history inp), world := w'\<rparr>)"
    unfolding caught by (simp add: catchAgentError_def)
  have fallback: "truthy (errorMessage e) \<longrightarrow>
           processMessage env inp s
             = handleWithRules env (message inp)
                 (s\<lparr>chatHistory := sliceLast 20 (history inp), world := w'\<rparr>)"
    unfolding caught by (simp add: catchAgentError_def)
  have returns: "truthy (errorMessage e) \<longrightarrow> (\<exists>r. fst (processMessage env inp s) = Inr r)"
    unfolding caught
    using handleWithRules_frame [OF surjective_pairing, of env "message inp"]
    by (simp add: catchAgentError_def)
  have nomatch: "truthy (errorMessage e) \<longrightarrow>
          find (\<lambda>p. regexTest (match p) (message inp)) patterns = None
          \<longrightarrow> fst (processMessage env inp s) = Inr (Reply helpMessage None [])"
    unfolding caught by (simp add: catchAgentError_def handleWithRules_def)
  from fallback returns nomatch rethrown show ?thesis by blast
qed

theorem llm_error_falls_back_to_rules_witness:
  "fst (processMessage (exampleEnv True (Inl (Thrown (JStr ''quota exceeded''))))
          (exampleInput ''hello'' [] None) (initialState ()))
     = Inr (Reply helpMessage None [])"
proof -
  let ?env = "exampleEnv True (Inl (Thrown (JStr ''quota exceeded'')))"
  let ?inp = "exampleInput ''hello'' [] None"
  have a: "approvedAction ?inp = None"
    by (simp add: exampleInput_def)
  have b: "isConfigured ?env (world (initialState ()))"
    by (simp add: exampleEnv_def)
  have c: "llmThrows ?env (buildMessages (sliceLast 20 (history ?inp)) (message ?inp))
             (world (initialState ())) (Thrown (JStr ''quota exceeded'')) ()"
    by (simp add: llmThrows_def exampleEnv_def)
  have d: "truthy (errorMessage (Thrown (JStr ''quota exceeded'')))"
    by simp
  have e: "find (\<lambda>p. regexTest (match p) (message ?inp)) patterns = None"
    using no_pattern_matches_hello by (simp add: exampleInput_def)
  from llm_error_falls_back_to_rules [OF a b c] d e show ?thesis
    by blast
qed

text \<open>
  An error whose message is the empty string, thrown by \<^verbatim>\<open>chatCompletion\<close>, is thrown
  on by \<^verbatim>\<open>processMessage\<close>.
\<close>

theorem llm_error_without_message_rethrown:
  "llmThrows (exampleEnv True (Inl (Thrown (JStr [])))) (buildMessages [] ''hello'') ()
     (Thrown (JStr [])) ()
   \<and> fst (processMessage (exampleEnv True (Inl (Thrown (JStr []))))
            (exampleInput ''hello'' [] None) (initialState ()))
       = Inl (Thrown (JStr []))"
  by (simp add: llmThrows_def processMessage_def tryTurn_def catchAgentError_def exampleEnv_def
                exampleInput_def initialState_def)

section \<open>The poll loop\<close>

lemma timed_out_iff:
  "startTime \<le> now s \<Longrightarrow>
     (int timeout < int (now s) - int startTime) = (30000 < now s - startTime)"
  by (auto simp: timeout_def)

lemma pollLoop_submitted:
  "submitted (snd (pollLoop env startTime result s)) = submitted s"
proof (induction "startTime + 30001 - now s" arbitrary: result s rule: less_induct)
  case less
  show ?case
  proof (cases "member result ''state''")
    case (Inl e)
    then show ?thesis by (simp add: pollLoop.simps)
  next
    case (Inr st)
    show ?thesis
    proof (cases "List.member nonTerminalStates st
                  \<and> \<not> int timeout < int (now s) - int startTime")
      case False
      then show ?thesis using Inr by (auto simp: pollLoop.simps)
    next
      case True
      obtain res s2 where fetch:
        "fetchDetails env (getProp result ''id'') (sleep 2000 s) = (res, s2)"
        by (metis prod.exhaust)
      have s2: "submitted s2 = submitted s" "now s < now s2"
        using fetch by (auto simp: fetchDetails_def sleep_def split: prod.splits)
      show ?thesis
      proof (cases res)
        case (Inl e)
        then show ?thesis
          using Inr True fetch s2 by (simp add: pollLoop.simps)
      next
        case next_job: (Inr job)
        have smaller: "startTime + 30001 - now s2 < startTime + 30001 - now s"
          using True s2 by (simp add: timeout_def, arith)
        have "pollLoop env startTime result s = pollLoop env startTime job s2"
          using Inr True fetch next_job by (simp add: pollLoop.simps [of env startTime result s])
        then show ?thesis
          using less [OF smaller, of job] s2 by simp
      qed
    qed
  qed
qed

lemma pollLoop_pending:
  assumes fetches: "\<forall>ident w. \<exists>job took w1.
             getQueryDetails env ident w = ((Inr job, took), w1) \<and> pending job \<and> took \<le> L"
    and "pending result"
    and "startTime \<le> now s"
    and "now s - startTime \<le> 32000 + L"
  shows "\<exists>new. fetched (snd (pollLoop env startTime result s)) = fetched s @ new
           \<and> fst (pollLoop env startTime result s)
               = Inr (Json 200 (stillRunning (latestJob result new)))
           \<and> pending (latestJob result new)
           \<and> 30000 < now (snd (pollLoop env startTime result s)) - startTime
           \<and> now (snd (pollLoop env startTime result s)) - startTime \<le> 32000 + L
           \<and> sleeps (snd (pollLoop env startTime result s))
               \<le> sleeps s + (32000 - (now s - startTime)) div 2000"
  using assms(2-4)
proof (induction "startTime + 30001 - now s" arbitrary: result s rule: less_induct)
  case less
  from less.prems(1) obtain st where
    st: "member result ''state'' = Inr st" "List.member nonTerminalStates st"
    by (auto simp: pending_def split: sum.splits)
  show ?case
  proof (cases "30000 < now s - startTime")
    case True
    then have "pollLoop env startTime result s = (Inr (Json 200 (stillRunning result)), s)"
      using st less.prems(2) by (simp add: pollLoop.simps timed_out_iff)
    then show ?thesis
      using True less.prems by (intro exI [of _ "[]"]) simp
  next
    case False
    let ?ident = "getProp result ''id''"
    from fetches obtain job took w1 where
      got: "getQueryDetails env ?ident (remote (sleep 2000 s)) = ((Inr job, took), w1)"
      and job: "pending job" and took: "took \<le> L"
      by blast
    define s2 where
      "s2 = (sleep 2000 s)\<lparr>now := now (sleep 2000 s) + took, remote := w1,
                              fetched := fetched (sleep 2000 s) @ [(?ident, Inr job)]\<rparr>"
    have fetch: "fetchDetails env ?ident (sleep 2000 s) = (Inr job, s2)"
      using got by (simp add: fetchDetails_def s2_def)
    have s2: "now s2 = now s + 2000 + took" "sleeps s2 = Suc (sleeps s)"
      "fetched s2 = fetched s @ [(?ident, Inr job)]"
      by (simp_all add: s2_def sleep_def)
    have step: "pollLoop env startTime result s = pollLoop env startTime job s2"
      using st False less.prems(2) fetch
      by (simp add: pollLoop.simps [of env startTime result s] timed_out_iff)
    have smaller: "startTime + 30001 - now s2 < startTime + 30001 - now s"
      using False less.prems(2) s2 by simp
    have pre: "startTime \<le> now s2" "now s2 - startTime \<le> 32000 + L"
      using False less.prems(2) s2 took by simp_all
    from less.hyps [OF smaller job pre] obtain new where new:
      "fetched (snd (pollLoop env startTime job s2)) = fetched s2 @ new"
      "fst (pollLoop env startTime job s2) = Inr (Json 200 (stillRunning (latestJob job new)))"
      "pending (latestJob job new)"
      "30000 < now (snd (pollLoop env startTime job s2)) - startTime"
      "now (snd (pollLoop env startTime job s2)) - startTime \<le> 32000 + L"
      "sleeps (snd (pollLoop env startTime job s2))
         \<le> sleeps s2 + (32000 - (now s2 - startTime)) div 2000"
      by blast
    have count: "Suc ((32000 - (now s2 - startTime)) div 2000)
                   \<le> (32000 - (now s - startTime)) div 2000"
      using False less.prems(2) s2 by simp
    have "sleeps (snd (pollLoop env startTime job s2))
            \<le> sleeps s2 + (32000 - (now s2 - startTime)) div 2000"
      by (rule new(6))
    also have "\<dots> = sleeps s + Suc ((32000 - (now s2 - startTime)) div 2000)"
      using s2(2) by simp
    also have "\<dots> \<le> sleeps s + (32000 - (now s - startTime)) div 2000"
      using count by linarith
    finally have slept: "sleeps (snd (pollLoop env startTime job s2))
                           \<le> sleeps s + (32000 - (now s - startTime)) div 2000" .
    show ?thesis
      unfolding step
      using new(1-5) s2(3) slept
      by (intro exI [of _ "(?ident, Inr job) # new"]) simp
  qed
qed

lemma map_of_setProp_same: "map_of (setProp kvs key v) key = Some v"
  by (induction kvs) auto

lemma map_of_setProp_other: "k \<noteq> key \<Longrightarrow> map_of (setProp kvs key v) k = map_of kvs k"
  by (induction kvs) auto

lemma stillRunning_marks:
  "getProp (stillRunning job) ''polling'' = JBool True
   \<and> getProp (stillRunning job) ''message'' = JStr ''Query is still running. Check back later.''"
  by (simp add: stillRunning_def map_of_setProp_same map_of_setProp_other)

lemma stillRunning_keeps:
  "k \<noteq> ''message'' \<Longrightarrow> k \<noteq> ''polling'' \<Longrightarrow>
     getProp (stillRunning (JObj kvs)) k = getProp (JObj kvs) k"
  by (simp add: stillRunning_def map_of_setProp_other)

lemma postQueries_valid:
  "truthy (sql body) \<Longrightarrow>
     postQueries env body s
       = (case submitQuery env (queryDataOf body (now s)) s of
            (Inl e, s') \<Rightarrow> (Inl e, s')
          | (Inr createdQuery, s') \<Rightarrow> pollLoop env (now s') createdQuery s')"
  by (simp add: postQueries_def queryDataOf_def)

lemma postQueries_submitted:
  assumes "truthy (sql body)"
  shows "submitted (snd (postQueries env body s)) = submitted s @ [queryDataOf body (now s)]"
proof -
  obtain res s1 where sub: "submitQuery env (queryDataOf body (now s)) s = (res, s1)"
    by (metis prod.exhaust)
  have s1: "submitted s1 = submitted s @ [queryDataOf body (now s)]"
    using sub by (auto simp: submitQuery_def split: prod.splits)
  show ?thesis
    using assms sub s1 pollLoop_submitted [of env "now s1" _ s1]
    by (cases res) (simp_all add: postQueries_valid)
qed

text \<open>
  C4, as the code has it. A request without \<^verbatim>\<open>sql\<close> is refused and submits nothing;
  every other request submits its query exactly once. When the job created is in a
  state outside \<^verbatim>\<open>SUBMITTED\<close>, \<^verbatim>\<open>IN_PROGRESS\<close> and \<^verbatim>\<open>PENDING\<close>, it is returned
  unchanged, with no timer awaited and no status fetched. When the job created and
  every job fetched are in one of those states and each fetch takes at most \<open>L\<close>
  milliseconds, the route returns the job most recently fetched, annotated with
  \<^verbatim>\<open>polling: true\<close> and the still-running message, after at most 16 timers, more
  than \<open>timeout\<close> and at most \<open>timeout + pollInterval + L\<close> milliseconds after the
  moment it took as start: within \<open>timeout + pollInterval\<close> when fetches take no
  time.
\<close>

theorem query_poller:
  "(\<not> truthy (sql body) \<longrightarrow>
      postQueries env body s
        = (Inr (Json 400 (JObj [(''error'', JStr ''SQL query is required'')])), s))
   \<and> (truthy (sql body) \<longrightarrow>
        submitted (snd (postQueries env body s)) = submitted s @ [queryDataOf body (now s)]
        \<and> (\<forall>job took w1.
              createQuery env (queryDataOf body (now s)) (remote s) = ((Inr job, took), w1) \<longrightarrow>
              ((\<exists>st. member job ''state'' = Inr st) \<and> \<not> pending job \<longrightarrow>
                 fst (postQueries env body s) = Inr (Json 200 job)
                 \<and> sleeps (snd (postQueries env body s)) = sleeps s
                 \<and> fetched (snd (postQueries env body s)) = fetched s)
              \<and> (pending job
                  \<and> (\<forall>ident w. \<exists>j d w2. getQueryDetails env ident w = ((Inr j, d), w2)
                                      \<and> pending j \<and> d \<le> L) \<longrightarrow>
                 (\<exists>new. fetched (snd (postQueries env body s)) = fetched s @ new
                       \<and> fst (postQueries env body s)
                           = Inr (Json 200 (stillRunning (latestJob job new))))
                 \<and> timeout < now (snd (postQueries env body s)) - (now s + took)
                 \<and> now (snd (postQueries env body s)) - (now s + took)
                     \<le> timeout + pollInterval + L
                 \<and> sleeps (snd (postQueries env body s)) \<le> sleeps s + 16)))
   \<and> getProp (stillRunning result) ''polling'' = JBool True
   \<and> getProp (stillRunning result) ''message''
       = JStr ''Query is still running. Check back later.''"
proof (intro conjI impI allI)
  assume "\<not> truthy (sql body)"
  then show "postQueries env body s
        = (Inr (Json 400 (JObj [(''error'', JStr ''SQL query is required'')])), s)"
    by (simp add: postQueries_def)
next
  assume "truthy (sql body)"
  then show "submitted (snd (postQueries env body s))
               = submitted s @ [queryDataOf body (now s)]"
    by (rule postQueries_submitted)
next
  fix job took w1
  assume valid: "truthy (sql body)"
    and created: "createQuery env (queryDataOf body (now s)) (remote s) = ((Inr job, took), w1)"
    and terminal: "(\<exists>st. member job ''state'' = Inr st) \<and> \<not> pending job"
  define s1 where
    "s1 = s\<lparr>now := now s + took, remote := w1,
             submitted := submitted s @ [queryDataOf body (now s)]\<rparr>"
  have run: "postQueries env body s = pollLoop env (now s1) job s1"
    using valid created by (simp add: postQueries_valid submitQuery_def s1_def)
  have "pollLoop env (now s1) job s1 = (Inr (Json 200 job), s1)"
    using terminal by (auto simp: pollLoop.simps pending_def)
  then have whole: "postQueries env body s = (Inr (Json 200 job), s1)"
    using run by simp
  show "fst (postQueries env body s) = Inr (Json 200 job)"
    and "sleeps (snd (postQueries env body s)) = sleeps s"
    and "fetched (snd (postQueries env body s)) = fetched s"
    unfolding whole by (simp_all add: s1_def)
next
  fix job took w1
  assume valid: "truthy (sql body)"
    and created: "createQuery env (queryDataOf body (now s)) (remote s) = ((Inr job, took), w1)"
    and running: "pending job
                  \<and> (\<forall>ident w. \<exists>j d w2. getQueryDetails env ident w = ((Inr j, d), w2)
                                      \<and> pending j \<and> d \<le> L)"
  define s1 where
    "s1 = s\<lparr>now := now s + took, remote := w1,
             submitted := submitted s @ [queryDataOf body (now s)]\<rparr>"
  have run: "postQueries env body s = pollLoop env (now s1) job s1"
    using valid created by (simp add: postQueries_valid submitQuery_def s1_def)
  have s1: "now s1 = now s + took" "sleeps s1 = sleeps s" "fetched s1 = fetched s"
    by (simp_all add: s1_def)
  from running have fetches: "\<forall>ident w. \<exists>job took w1.
      getQueryDetails env ident w = ((Inr job, took), w1) \<and> pending job \<and> took \<le> L"
    and job: "pending job"
    by blast+
  from pollLoop_pending [OF fetches job, of "now s1" s1]
  obtain new where new:
    "fetched (snd (pollLoop env (now s1) job s1)) = fetched s1 @ new"
    "fst (pollLoop env (now s1) job s1) = Inr (Json 200 (stillRunning (latestJob job new)))"
    "30000 < now (snd (pollLoop env (now s1) job s1)) - now s1"
    "now (snd (pollLoop env (now s1) job s1)) - now s1 \<le> 32000 + L"
    "sleeps (snd (pollLoop env (now s1) job s1)) \<le> sleeps s1 + (32000 - (now s1 - now s1)) div 2000"
    by auto
  show "\<exists>new. fetched (snd (postQueries env body s)) = fetched s @ new
          \<and> fst (postQueries env body s) = Inr (Json 200 (stillRunning (latestJob job new)))"
    unfolding run using new(1,2) s1 by auto
  show "timeout < now (snd (postQueries env body s)) - (now s + took)"
    unfolding run using new(3) s1 by (simp add: timeout_def)
  show "now (snd (postQueries env body s)) - (now s + took) \<le> timeout + pollInterval + L"
    unfolding run using new(4) s1 by (simp add: timeout_def pollInterval_def)
  show "sleeps (snd (postQueries env body s)) \<le> sleeps s + 16"
    unfolding run using new(5) s1 by simp
next
  show "getProp (stillRunning result) ''polling'' = JBool True"
    and "getProp (stillRunning result) ''message''
           = JStr ''Query is still running. Check back later.''"
    using stillRunning_marks [of result] by simp_all
qed

lemma exampleJob_state:
  "member (exampleJob st) ''state'' = Inr (JStr st)"
  by (simp add: exampleJob_def member_def)

theorem query_poller_witness:
  "fst (postQueries (exampleQueryEnv ''SUCCESS'' 0) exampleBody startState)
     = Inr (Json 200 (exampleJob ''SUCCESS''))
   \<and> sleeps (snd (postQueries (exampleQueryEnv ''SUCCESS'' 0) exampleBody startState)) = 0
   \<and> now (snd (postQueries (exampleQueryEnv ''IN_PROGRESS'' 0) exampleBody startState))
       - now startState \<le> timeout + pollInterval
   \<and> submitted (snd (postQueries (exampleQueryEnv ''IN_PROGRESS'' 0) exampleBody startState))
       = [queryDataOf exampleBody 1000]"
proof -
  have valid: "truthy (sql exampleBody)"
    by (simp add: exampleBody_def)
  have created: "createQuery (exampleQueryEnv st 0) (queryDataOf exampleBody (now startState))
                   (remote startState) = ((Inr (exampleJob st), 0), ())" for st
    by (simp add: exampleQueryEnv_def)
  have ended: "(\<exists>st. member (exampleJob ''SUCCESS'') ''state'' = Inr st)
              \<and> \<not> pending (exampleJob ''SUCCESS'')"
    by (simp add: exampleJob_state pending_def nonTerminalStates_def)
  have running: "pending (exampleJob ''IN_PROGRESS'')
                 \<and> (\<forall>ident w. \<exists>j d w2.
                       getQueryDetails (exampleQueryEnv ''IN_PROGRESS'' 0) ident w = ((Inr j, d), w2)
                       \<and> pending j \<and> d \<le> 0)"
    by (simp add: exampleJob_state pending_def nonTerminalStates_def exampleQueryEnv_def)
  note finished = query_poller [where env = "exampleQueryEnv ''SUCCESS'' 0" and body = exampleBody
                     and s = startState and L = 0 and result = JNull]
  note waiting = query_poller [where env = "exampleQueryEnv ''IN_PROGRESS'' 0" and body = exampleBody
                    and s = startState and L = 0 and result = JNull]
  from finished valid created [of "''SUCCESS''"] ended
  have a: "fst (postQueries (exampleQueryEnv ''SUCCESS'' 0) exampleBody startState)
             = Inr (Json 200 (exampleJob ''SUCCESS''))
           \<and> sleeps (snd (postQueries (exampleQueryEnv ''SUCCESS'' 0) exampleBody startState))
               = sleeps startState"
    by blast
  from waiting valid created [of "''IN_PROGRESS''"] running
  have b: "now (snd (postQueries (exampleQueryEnv ''IN_PROGRESS'' 0) exampleBody startState))
             - (now startState + 0) \<le> timeout + pollInterval + 0"
    by blast
  from waiting valid
  have c: "submitted (snd (postQueries (exampleQueryEnv ''IN_PROGRESS'' 0) exampleBody startState))
             = submitted startState @ [queryDataOf exampleBody (now startState)]"
    by blast
  from a b c show ?thesis
    by (simp add: startState_def)
qed

text \<open>
  With a job that stays in progress and status fetches that take one second each,
  the route returns 33 seconds after the request, later than \<open>timeout + pollInterval\<close>.
\<close>

theorem slow_fetches_exceed_the_bound:
  "now (snd (postQueries (exampleQueryEnv ''IN_PROGRESS'' 1000) exampleBody startState))
     - now startState = 33000
   \<and> timeout + pollInterval = 32000"
  by (simp add: postQueries_def submitQuery_def exampleQueryEnv_def exampleBody_def
                startState_def pollLoop.simps fetchDetails_def sleep_def member_def
                exampleJob_def nonTerminalStates_def timeout_def pollInterval_def js_or_def)

end
